theory Spec2Isabelle
  imports Complex_Main "HOL-Library.Word"
begin

section \<open>Values and failures of the host language\<close>

text \<open>
  The module \<^verbatim>\<open>simplepbr/_ibl_funcs/cpu.py\<close> computes with Python integers, Python
  floats and the engine's vector classes. Integers are \<^typ>\<open>int\<close>, exact and without
  bound. Floats are modelled by \<^typ>\<open>real\<close>: the rounding and the overflow of
  arithmetic between floats are outside the model. What an operation of the source does
  beyond returning a number is written out: a Python division by zero and a square root
  of a negative number raise, and so does every step from an integer to a float,
  \<^verbatim>\<open>float(n)\<close> and the quotient \<^verbatim>\<open>n / m\<close> of two integers, when the value is beyond
  the range of a double.
\<close>

datatype error =
    RuntimeError string
  | ZeroDivisionError
  | ValueError
  | UnboundLocalError
  | OverflowError

type_synonym Vec2TupleType = "real \<times> real"
type_synonym Vec3TupleType = "real \<times> real \<times> real"

definition bindE :: "error + 'a \<Rightarrow> ('a \<Rightarrow> error + 'b) \<Rightarrow> error + 'b" where
  "bindE m f = (case m of Inl e \<Rightarrow> Inl e | Inr v \<Rightarrow> f v)"

definition truediv :: "real \<Rightarrow> real \<Rightarrow> error + real" where
  \<comment> \<open>Python's \<^verbatim>\<open>a / b\<close> on floats: raises on a zero divisor.\<close>
  "truediv a b = (if b = 0 then Inl ZeroDivisionError else Inr (a / b))"

definition float_limit :: int where
  \<comment> \<open>The least magnitude that rounds, to nearest and ties to even, beyond the largest
      double \<open>2\<^sup>1\<^sup>0\<^sup>2\<^sup>4 - 2\<^sup>9\<^sup>7\<^sup>1\<close>: from here on a conversion overflows.\<close>
  "float_limit = 2 ^ 1024 - 2 ^ 970"

definition py_float :: "int \<Rightarrow> error + real" where
  \<comment> \<open>\<^verbatim>\<open>float(n)\<close> of an integer, also where a float operation converts an integer
      operand: \<^verbatim>\<open>OverflowError\<close> for an integer too large for a double.\<close>
  "py_float n = (if \<bar>n\<bar> < float_limit then Inr (real_of_int n) else Inl OverflowError)"

definition int_truediv :: "int \<Rightarrow> int \<Rightarrow> error + real" where
  \<comment> \<open>Python's \<^verbatim>\<open>a / b\<close> on two integers: raises on a zero divisor, and with
      \<^verbatim>\<open>OverflowError\<close> when the quotient, not the operands, is too large for a double.\<close>
  "int_truediv a b =
     (if b = 0 then Inl ZeroDivisionError
      else if \<bar>real_of_int a / real_of_int b\<bar> < real_of_int float_limit
        then Inr (real_of_int a / real_of_int b)
      else Inl OverflowError)"

definition math_sqrt :: "real \<Rightarrow> error + real" where
  \<comment> \<open>\<^verbatim>\<open>math.sqrt\<close>: a negative argument is a math domain error.\<close>
  "math_sqrt a = (if a < 0 then Inl ValueError else Inr (sqrt a))"

section \<open>Direction of a cube-map texel\<close>

text \<open>
  \<^verbatim>\<open>calc_vector(dim, face_idx, xloc, yloc)\<close>: the two remapped coordinates, then the
  chain of six face cases. Each remap converts its dividend, then its divisor, with
  \<^verbatim>\<open>float(...)\<close>, and divides. A face index that matches no case leaves \<^verbatim>\<open>vec\<close>
  unbound, and \<^verbatim>\<open>return vec\<close> raises.
\<close>

definition calc_vector :: "int \<Rightarrow> int \<Rightarrow> int \<Rightarrow> int \<Rightarrow> error + Vec3TupleType" where
  "calc_vector dimen face_idx xloc yloc =
     bindE (py_float xloc) (\<lambda>fx.
     bindE (py_float ((dimen - 1) * 2 - 1)) (\<lambda>dx.
     bindE (truediv fx dx) (\<lambda>xcoord.
     bindE (py_float (1 - yloc)) (\<lambda>fy.
     bindE (py_float ((dimen - 1) * 2)) (\<lambda>dy.
     bindE (truediv fy dy) (\<lambda>ycoord.
       if face_idx = 0 then Inr (1, ycoord, - xcoord)
       else if face_idx = 1 then Inr (- 1, ycoord, xcoord)
       else if face_idx = 2 then Inr (xcoord, 1, - ycoord)
       else if face_idx = 3 then Inr (xcoord, - 1, ycoord)
       else if face_idx = 4 then Inr (xcoord, ycoord, 1)
       else if face_idx = 5 then Inr (- xcoord, ycoord, - 1)
       else Inl UnboundLocalError))))))"

section \<open>The sample sequence\<close>

text \<open>
  \<^verbatim>\<open>van_der_corput(idx, base)\<close> is a \<^verbatim>\<open>while idx:\<close> loop; it need not end (a negative
  index with base 2 stays at \<open>-1\<close>), so the loop is a partial function and \<open>None\<close> means
  that the call does not return. \<^verbatim>\<open>divmod\<close> is floor division, as \<open>div\<close> and \<open>mod\<close>
  on \<^typ>\<open>int\<close> are, and raises on a zero base.
\<close>

partial_function (option) van_der_corput_loop ::
  "int \<Rightarrow> int \<Rightarrow> int \<Rightarrow> real \<Rightarrow> (error + real) option" where
  "van_der_corput_loop idx base denom result =
     (if idx = 0 then Some (Inr result)
      else if base = 0 then Some (Inl ZeroDivisionError)
      else (case int_truediv (idx mod base) (denom * base) of
              Inl e \<Rightarrow> Some (Inl e)
            | Inr q \<Rightarrow> van_der_corput_loop (idx div base) base (denom * base) (result + q)))"

definition van_der_corput :: "int \<Rightarrow> int \<Rightarrow> (error + real) option" where
  "van_der_corput idx base = van_der_corput_loop idx base 1 0"

definition bindP ::
  "(error + 'a) option \<Rightarrow> ('a \<Rightarrow> (error + 'b) option) \<Rightarrow> (error + 'b) option" where
  "bindP m f = (case m of None \<Rightarrow> None | Some (Inl e) \<Rightarrow> Some (Inl e) | Some (Inr v) \<Rightarrow> f v)"

text \<open>
  \<^verbatim>\<open>hammersley(idx, maxnum)\<close> builds the tuple left to right: the quotient first, then
  the radical inverse in the default base 2. The \<^verbatim>\<open>lru_cache\<close> around it stores results
  of a function without effects and does not change them.
\<close>

definition hammersley :: "int \<Rightarrow> int \<Rightarrow> (error + Vec2TupleType) option" where
  "hammersley idx maxnum =
     bindP (Some (int_truediv idx maxnum)) (\<lambda>u.
     bindP (van_der_corput idx 2) (\<lambda>v. Some (Inr (u, v))))"


section \<open>The engine's vectors\<close>

text \<open>
  \<^verbatim>\<open>p3d.LVector3\<close>, \<^verbatim>\<open>p3d.LVector2\<close> and \<^verbatim>\<open>p3d.LColor\<close> belong to the engine, not to this
  module; the module uses their arithmetic, \<^verbatim>\<open>dot\<close>, \<^verbatim>\<open>cross\<close>, \<^verbatim>\<open>normalize\<close> and
  \<^verbatim>\<open>normalized\<close>. They are tuples of reals here. Normalising the zero vector leaves the
  zero vector. The engine divides a vector by a scalar in machine arithmetic without
  raising: for a zero scalar every component of the quotient is an infinity or a NaN,
  which the reals do not have, so a quotient is \<open>Finite v\<close> or \<open>NonFinite\<close>.
\<close>

type_synonym LVector2 = "real \<times> real"
type_synonym LVector3 = "real \<times> real \<times> real"
type_synonym LColor = "real \<times> real \<times> real \<times> real"

datatype 'a ieee = Finite 'a | NonFinite

definition vx :: "LVector3 \<Rightarrow> real" where "vx v = fst v"
definition vy :: "LVector3 \<Rightarrow> real" where "vy v = fst (snd v)"
definition vz :: "LVector3 \<Rightarrow> real" where "vz v = snd (snd v)"

definition lv3_add :: "LVector3 \<Rightarrow> LVector3 \<Rightarrow> LVector3" where
  "lv3_add a b = (vx a + vx b, vy a + vy b, vz a + vz b)"

definition lv3_sub :: "LVector3 \<Rightarrow> LVector3 \<Rightarrow> LVector3" where
  "lv3_sub a b = (vx a - vx b, vy a - vy b, vz a - vz b)"

definition lv3_scale :: "LVector3 \<Rightarrow> real \<Rightarrow> LVector3" where
  "lv3_scale a s = (vx a * s, vy a * s, vz a * s)"

definition lv3_dot :: "LVector3 \<Rightarrow> LVector3 \<Rightarrow> real" where
  "lv3_dot a b = vx a * vx b + vy a * vy b + vz a * vz b"

definition lv3_cross :: "LVector3 \<Rightarrow> LVector3 \<Rightarrow> LVector3" where
  "lv3_cross a b =
     (vy a * vz b - vz a * vy b, vz a * vx b - vx a * vz b, vx a * vy b - vy a * vx b)"

definition lv3_normalized :: "LVector3 \<Rightarrow> LVector3" where
  "lv3_normalized a =
     (let l2 = lv3_dot a a
      in if l2 = 0 then (0, 0, 0) else (vx a / sqrt l2, vy a / sqrt l2, vz a / sqrt l2))"

definition lv3_div :: "LVector3 \<Rightarrow> real \<Rightarrow> LVector3 ieee" where
  "lv3_div a s = (if s = 0 then NonFinite else Finite (vx a / s, vy a / s, vz a / s))"

definition lv2_div :: "LVector2 \<Rightarrow> real \<Rightarrow> LVector2 ieee" where
  "lv2_div a s = (if s = 0 then NonFinite else Finite (fst a / s, snd a / s))"

definition lv2_x :: "LVector2 ieee \<Rightarrow> real ieee" where
  "lv2_x r = (case r of Finite v \<Rightarrow> Finite (fst v) | NonFinite \<Rightarrow> NonFinite)"

definition lv2_y :: "LVector2 ieee \<Rightarrow> real ieee" where
  "lv2_y r = (case r of Finite v \<Rightarrow> Finite (snd v) | NonFinite \<Rightarrow> NonFinite)"

definition xyz :: "LColor \<Rightarrow> LVector3" where
  "xyz c = (fst c, fst (snd c), fst (snd (snd c)))"

section \<open>Loops over a range\<close>

definition range_list :: "int \<Rightarrow> int list" where
  \<comment> \<open>\<^verbatim>\<open>range(n)\<close>: empty when \<open>n \<le> 0\<close>.\<close>
  "range_list n = map int [0..<nat n]"

fun for_loop ::
  "('s \<Rightarrow> 'i \<Rightarrow> (error + 's) option) \<Rightarrow> 'i list \<Rightarrow> 's \<Rightarrow> (error + 's) option" where
  "for_loop body [] s = Some (Inr s)"
| "for_loop body (i # rest) s = bindP (body s i) (for_loop body rest)"

section \<open>GGX importance sampling\<close>

text \<open>
  The source chooses the reference vector by \<^verbatim>\<open>abs(normal.z < 0.999)\<close>: the comparison
  is made first and \<^verbatim>\<open>abs\<close> is applied to its truth value, which is 1 or 0.
\<close>

definition upvec_for :: "LVector3 \<Rightarrow> LVector3" where
  "upvec_for normal =
     (if \<bar>of_bool (vz normal < 0.999) :: int\<bar> \<noteq> 0 then (0, 0, 1) else (1, 0, 0))"

definition tangent_for :: "LVector3 \<Rightarrow> LVector3" where
  \<comment> \<open>\<^verbatim>\<open>tangent = upvec.cross(normal); tangent.normalize()\<close>\<close>
  "tangent_for normal = lv3_normalized (lv3_cross (upvec_for normal) normal)"

definition bitangent_for :: "LVector3 \<Rightarrow> LVector3" where
  \<comment> \<open>\<^verbatim>\<open>bitangent = normal.cross(tangent)\<close>, with the tangent already normalised\<close>
  "bitangent_for normal = lv3_cross normal (tangent_for normal)"

definition importance_sample_ggx ::
  "Vec2TupleType \<Rightarrow> LVector3 \<Rightarrow> real \<Rightarrow> error + LVector3" where
  "importance_sample_ggx xi normal roughness =
     (let alpha = roughness * roughness;
          phi = 2 * pi * fst xi
      in bindE (truediv (1 - snd xi) (1 + (alpha * alpha - 1) * snd xi)) (\<lambda>ratio.
         bindE (math_sqrt ratio) (\<lambda>costheta.
         bindE (math_sqrt (1 - costheta * costheta)) (\<lambda>sintheta.
           let hvec = (cos phi * sintheta, sin phi * sintheta, costheta);
               tangent = tangent_for normal;
               bitangent = bitangent_for normal
           in Inr (lv3_normalized
                     (lv3_add (lv3_add (lv3_scale tangent (vx hvec))
                                       (lv3_scale bitangent (vy hvec)))
                              (lv3_scale normal (vz hvec))))))))"

section \<open>The visibility term\<close>

definition geometry_schlick_ggx :: "real \<Rightarrow> real \<Rightarrow> error + real" where
  "geometry_schlick_ggx ndotv roughness =
     (let alpha = roughness;
          kibl = alpha * alpha / 2
      in truediv ndotv (ndotv * (1 - kibl) + kibl))"

definition geometry_smith :: "LVector3 \<Rightarrow> LVector3 \<Rightarrow> LVector3 \<Rightarrow> real \<Rightarrow> error + real" where
  "geometry_smith normal view light roughness =
     (let ndotv = max (lv3_dot normal view) 0;
          ndotl = max (lv3_dot normal light) 0
      in bindE (geometry_schlick_ggx ndotv roughness) (\<lambda>gv.
         bindE (geometry_schlick_ggx ndotl roughness) (\<lambda>gl. Inr (gv * gl))))"

section \<open>The split-sum integral and its lookup table\<close>

text \<open>
  One pass of the loop body of \<^verbatim>\<open>integrate_brdf\<close>: \<open>retval\<close> is the pair of accumulators
  (\<^verbatim>\<open>retval.x\<close>, \<^verbatim>\<open>retval.y\<close>), returned unchanged when the sample is rejected.
\<close>

definition integrate_brdf_body ::
  "real \<Rightarrow> LVector3 \<Rightarrow> LVector3 \<Rightarrow> real \<Rightarrow> int \<Rightarrow> LVector2 \<Rightarrow> int \<Rightarrow> (error + LVector2) option" where
  "integrate_brdf_body ndotv view normal roughness num_samples retval idx =
     bindP (hammersley idx num_samples) (\<lambda>xi.
     bindP (Some (importance_sample_ggx xi normal roughness)) (\<lambda>hvec.
       let light = lv3_normalized
                     (lv3_sub (lv3_scale (lv3_scale hvec 2) (lv3_dot view hvec)) view);
           ndotl = max (vz light) 0
       in if ndotl > 0 then
            (let ndoth = max (vz hvec) 0;
                 vdoth = max (lv3_dot view hvec) 0
             in bindP (Some (geometry_smith normal view light roughness)) (\<lambda>geom.
                bindP (Some (truediv (geom * vdoth) (ndoth * ndotv))) (\<lambda>geom_vis.
                  let fresnel = (1 - vdoth) ^ 5
                  in Some (Inr (fst retval + (1 - fresnel) * geom_vis,
                                snd retval + fresnel * geom_vis)))))
          else Some (Inr retval)))"

definition integrate_brdf :: "real \<Rightarrow> real \<Rightarrow> int \<Rightarrow> (error + LVector2 ieee) option" where
  "integrate_brdf ndotv0 roughness num_samples =
     (let ndotv = max ndotv0 0.0001
      in bindP (Some (math_sqrt (1 - ndotv * ndotv))) (\<lambda>view_x.
           let view = (view_x, 0, ndotv);
               normal = (0, 0, 1)
           in bindP (for_loop (integrate_brdf_body ndotv view normal roughness num_samples)
                       (range_list num_samples) (0, 0)) (\<lambda>retval.
                Some (Inr (lv2_div retval (real_of_int num_samples))))))"

text \<open>
  The lookup table is written into the texture's byte buffer with
  \<^verbatim>\<open>struct.pack_into('ff', handle, idx, result[1], result[0])\<close>: two 4-byte floats, the
  first at byte \<open>idx\<close> and the second at byte \<open>idx + 4\<close>. The buffer is a map from the
  byte offset of a float to the float stored there.
\<close>

type_synonym float_buffer = "int \<rightharpoonup> real ieee"

definition pack_into_ff :: "float_buffer \<Rightarrow> int \<Rightarrow> real ieee \<Rightarrow> real ieee \<Rightarrow> float_buffer" where
  "pack_into_ff handle idx a b = handle(idx \<mapsto> a, idx + 4 \<mapsto> b)"

definition component_width :: int where
  \<comment> \<open>Modelled from the spec: the engine's byte width of a \<^verbatim>\<open>T_float\<close> component of the
      table's texture (the table is a 2-channel floating image).\<close>
  "component_width = 4"

definition num_components :: int where
  \<comment> \<open>Modelled from the spec: the engine's channel count of the \<^verbatim>\<open>F_rg16\<close> format (the
      table has two channels).\<close>
  "num_components = 2"

definition gen_brdf_lut_texel ::
  "int \<Rightarrow> int \<Rightarrow> int \<Rightarrow> int \<Rightarrow> int \<Rightarrow> float_buffer \<Rightarrow> int \<Rightarrow> (error + float_buffer) option" where
  "gen_brdf_lut_texel lutsize num_samples xsize pixelsize ycoord handle xcoord =
     (let idx = (ycoord * xsize + xcoord) * pixelsize
      in bindP (Some (int_truediv xcoord lutsize)) (\<lambda>u.
         bindP (Some (int_truediv ycoord lutsize)) (\<lambda>v.
         bindP (integrate_brdf u v num_samples) (\<lambda>result.
           Some (Inr (pack_into_ff handle idx (lv2_y result) (lv2_x result)))))))"

definition gen_brdf_lut :: "int \<Rightarrow> int \<Rightarrow> (error + float_buffer) option" where
  "gen_brdf_lut lutsize num_samples =
     (let pixelsize = component_width * num_components;
          xsize = lutsize
      in for_loop
           (\<lambda>handle ycoord.
              for_loop (gen_brdf_lut_texel lutsize num_samples xsize pixelsize ycoord)
                (range_list lutsize) handle)
           (range_list lutsize) Map.empty)"

section \<open>Prefiltering one direction\<close>

text \<open>
  The environment peeker is the colour its \<^verbatim>\<open>lookup\<close> writes for a direction. The loop
  state is the pair (\<^verbatim>\<open>retval\<close>, \<^verbatim>\<open>totweight\<close>).
\<close>

type_synonym envmap = "real \<Rightarrow> real \<Rightarrow> real \<Rightarrow> LColor"

definition filter_sample_body ::
  "LVector3 \<Rightarrow> envmap \<Rightarrow> LVector3 \<Rightarrow> real \<Rightarrow> int \<Rightarrow> LVector3 \<times> real \<Rightarrow> int
     \<Rightarrow> (error + LVector3 \<times> real) option" where
  "filter_sample_body pos env normal roughness num_samples acc idx =
     (let view = normal
      in bindP (hammersley idx num_samples) (\<lambda>xi.
         bindP (Some (importance_sample_ggx xi normal roughness)) (\<lambda>hvec.
           let light = lv3_normalized
                         (lv3_sub (lv3_scale (lv3_scale hvec 2) (lv3_dot view hvec)) view);
               ndotl = max (lv3_dot normal light) 0
           in if ndotl > 0 then
                (let colorptr = env (vx pos) (vy pos) (vz pos)
                 in Some (Inr (lv3_add (fst acc) (lv3_scale (xyz colorptr) ndotl),
                               snd acc + ndotl)))
              else Some (Inr acc))))"

definition filter_sample_loop ::
  "LVector3 \<Rightarrow> envmap \<Rightarrow> real \<Rightarrow> int \<Rightarrow> (error + LVector3 \<times> real) option" where
  "filter_sample_loop pos env roughness num_samples =
     for_loop (filter_sample_body pos env (lv3_normalized pos) roughness num_samples)
       (range_list num_samples) ((0, 0, 0), 0)"

definition filter_sample ::
  "LVector3 \<Rightarrow> envmap \<Rightarrow> real \<Rightarrow> int \<Rightarrow> (error + LVector3 ieee) option" where
  "filter_sample pos env roughness num_samples =
     bindP (filter_sample_loop pos env roughness num_samples) (\<lambda>acc.
       Some (Inr (lv3_div (fst acc) (snd acc))))"

section \<open>Spherical-harmonic projection\<close>

definition math_atan2 :: "real \<Rightarrow> real \<Rightarrow> real" where
  \<comment> \<open>\<^verbatim>\<open>math.atan2(y, x)\<close>, the angle of the point \<open>(x, y)\<close> in \<open>(-\<pi>, \<pi>]\<close>\<close>
  "math_atan2 y x =
     (if 0 < x then arctan (y / x)
      else if x < 0 \<and> 0 \<le> y then arctan (y / x) + pi
      else if x < 0 then arctan (y / x) - pi
      else if 0 < y then pi / 2
      else if y < 0 then - (pi / 2)
      else 0)"

definition calc_sphere_quadrant_area :: "real \<Rightarrow> real \<Rightarrow> error + real" where
  "calc_sphere_quadrant_area x y =
     bindE (math_sqrt (x * x + y * y + 1)) (\<lambda>r. Inr (math_atan2 (x * y) r))"

definition calc_solid_angle :: "real \<Rightarrow> int \<Rightarrow> int \<Rightarrow> error + real" where
  "calc_solid_angle invdim x y =
     bindE (py_float x) (\<lambda>fx.
     bindE (py_float y) (\<lambda>fy.
       let s = ((fx + 0.5) * 2 * invdim) - 1;
           t = ((fy + 0.5) * 2 * invdim) - 1;
           x0 = s - invdim;
           y0 = t - invdim;
           x1 = s + invdim;
           y1 = t + invdim
       in bindE (calc_sphere_quadrant_area x0 y0) (\<lambda>a00.
          bindE (calc_sphere_quadrant_area x0 y1) (\<lambda>a01.
          bindE (calc_sphere_quadrant_area x1 y0) (\<lambda>a10.
          bindE (calc_sphere_quadrant_area x1 y1) (\<lambda>a11.
            Inr (a00 - a01 - a10 + a11)))))))"

definition get_sh_basis_from_vector :: "Vec3TupleType \<Rightarrow> real list" where
  "get_sh_basis_from_vector vec =
     (let vecx = fst vec; vecy = fst (snd vec); vecz = snd (snd vec)
      in [0.282095,
          0.488603 * vecx,
          0.488603 * vecz,
          0.488603 * vecy,
          1.092548 * vecx * vecz,
          1.092548 * vecy * vecz,
          1.092548 * vecy * vecx,
          0.946176 * vecz * vecz - 0.315392,
          0.546274 * (vecx * vecx - vecy * vecy)])"

text \<open>
  The texture handed to \<^verbatim>\<open>get_sh_coeffs_from_cube_map\<close> is the engine's; the function
  reads its three sizes, asks \<^verbatim>\<open>might_have_ram_image()\<close> and calls \<^verbatim>\<open>peek()\<close>, which
  gives a peeker or \<^verbatim>\<open>None\<close>. A peeker is the colour its \<^verbatim>\<open>fetch_pixel\<close> writes for
  \<open>(x, y, z)\<close>. The engine keeps the three sizes of a texture as signed C integers of
  32 bits; the properties \<^verbatim>\<open>z_size\<close>, \<^verbatim>\<open>x_size\<close> and \<^verbatim>\<open>y_size\<close> hand them to Python
  as integers, here the signed value \<open>sint\<close> of the word.
\<close>

type_synonym TexturePeeker = "int \<Rightarrow> int \<Rightarrow> int \<Rightarrow> LColor"

record Texture =
  z_size_c :: "32 word"
  x_size_c :: "32 word"
  y_size_c :: "32 word"
  might_have_ram_image :: bool
  peek :: "TexturePeeker option"

definition z_size :: "Texture \<Rightarrow> int" where "z_size t = sint (z_size_c t)"
definition x_size :: "Texture \<Rightarrow> int" where "x_size t = sint (x_size_c t)"
definition y_size :: "Texture \<Rightarrow> int" where "y_size t = sint (y_size_c t)"

definition cube_samples :: "int \<Rightarrow> int \<Rightarrow> int \<Rightarrow> (int \<times> int \<times> int) list" where
  \<comment> \<open>the generator \<^verbatim>\<open>(face, x, y) for face in range(zs) for x in range(xs) for y in range(ys)\<close>\<close>
  "cube_samples zs xs ys =
     concat (map (\<lambda>face. concat (map (\<lambda>x. map (\<lambda>y. (face, x, y)) (range_list ys))
                                       (range_list xs)))
                 (range_list zs))"

definition sh_accumulate :: "LVector3 \<Rightarrow> real list \<Rightarrow> LVector3 list \<Rightarrow> LVector3 list" where
  \<comment> \<open>\<^verbatim>\<open>for idx, value in enumerate(basis): shcoeffs[idx] += color * value\<close>\<close>
  "sh_accumulate color basis shcoeffs =
     fold (\<lambda>(idx, val) sh. sh[idx := lv3_add (sh ! idx) (lv3_scale color val)])
          (enumerate 0 basis) shcoeffs"

definition sh_sample ::
  "TexturePeeker \<Rightarrow> int \<Rightarrow> real \<Rightarrow> int \<times> int \<times> int \<Rightarrow> LVector3 list \<Rightarrow> error + LVector3 list" where
  "sh_sample peeker dimen invdim sample shcoeffs =
     (let face = fst sample; x = fst (snd sample); y = snd (snd sample);
          color = xyz (peeker x y face)
      in bindE (calc_solid_angle invdim x y) (\<lambda>sa.
           let color = lv3_scale color sa
           in bindE (calc_vector dimen face x y) (\<lambda>vec.
                Inr (sh_accumulate color (get_sh_basis_from_vector vec) shcoeffs))))"

text \<open>
  The loop over the samples carries the coefficients and the log of the texels fetched
  so far, \<open>(x, y, z)\<close> as passed to \<^verbatim>\<open>fetch_pixel\<close>; the log survives a failure of the
  body, so that what was read before an error is visible.
\<close>

fun sh_loop ::
  "TexturePeeker \<Rightarrow> int \<Rightarrow> real \<Rightarrow> (int \<times> int \<times> int) list
     \<Rightarrow> LVector3 list \<times> (int \<times> int \<times> int) list
     \<Rightarrow> (error + LVector3 list) \<times> (int \<times> int \<times> int) list" where
  "sh_loop peeker dimen invdim [] (shcoeffs, fetched) = (Inr shcoeffs, fetched)"
| "sh_loop peeker dimen invdim (sample # rest) (shcoeffs, fetched) =
     (let fetched' = fetched @ [(fst (snd sample), snd (snd sample), fst sample)]
      in case sh_sample peeker dimen invdim sample shcoeffs of
           Inl e \<Rightarrow> (Inl e, fetched')
         | Inr shcoeffs' \<Rightarrow> sh_loop peeker dimen invdim rest (shcoeffs', fetched'))"

definition a0 :: real where "a0 = 3.141593"
definition a1 :: real where "a1 = 2.094395"
definition a2 :: real where "a2 = 0.785398"

definition cosine_lobe :: "LVector3 list \<Rightarrow> LVector3 list" where
  \<comment> \<open>the eight statements \<^verbatim>\<open>shcoeffs[0] *= a0\<close> to \<^verbatim>\<open>shcoeffs[7] *= a2\<close>, in order\<close>
  "cosine_lobe shcoeffs =
     fold (\<lambda>(idx, a) sh. sh[idx := lv3_scale (sh ! idx) a])
          [(0, a0), (1, a1), (2, a1), (3, a1), (4, a2), (5, a2), (6, a2), (7, a2)]
          shcoeffs"

definition get_sh_coeffs_from_cube_map ::
  "Texture \<Rightarrow> (error + LVector3 list) \<times> (int \<times> int \<times> int) list" where
  "get_sh_coeffs_from_cube_map texcubemap =
     (if z_size texcubemap \<noteq> 6 then
        (Inl (RuntimeError ''supplied texture was not a cube map''), [])
      else if x_size texcubemap \<noteq> y_size texcubemap then
        (Inl (RuntimeError ''supplied cube map is using unsupported, non-square dimensions''), [])
      else if \<not> might_have_ram_image texcubemap then
        (Inl (RuntimeError ''expected might_have_ram_image() to be true on supplied texture''), [])
      else case peek texcubemap of
        None \<Rightarrow> (Inl (RuntimeError ''unable to get TexturePeeker for texture''), [])
      | Some peeker \<Rightarrow>
          (let dimen = x_size texcubemap
           in case bindE (py_float dimen) (truediv 1) of
                Inl e \<Rightarrow> (Inl e, [])
              | Inr invdim \<Rightarrow>
                  (case sh_loop peeker dimen invdim
                          (cube_samples (z_size texcubemap) (x_size texcubemap) (y_size texcubemap))
                          (replicate 9 (0, 0, 0), []) of
                     (Inl e, fetched) \<Rightarrow> (Inl e, fetched)
                   | (Inr shcoeffs, fetched) \<Rightarrow> (Inr (cosine_lobe shcoeffs), fetched))))"

section \<open>Auxiliary notions for the proofs\<close>

definition constant_env :: "LColor \<Rightarrow> envmap" where
  \<comment> \<open>an environment of one colour\<close>
  "constant_env c x y z = c"

definition ggx_costheta :: "real \<Rightarrow> real \<Rightarrow> real" where
  \<comment> \<open>the value of \<^verbatim>\<open>costheta\<close> in \<open>importance_sample_ggx\<close> for roughness \<open>r\<close> and \<open>xi[1] = y\<close>\<close>
  "ggx_costheta roughness y =
     sqrt ((1 - y) / (1 + (roughness * roughness * (roughness * roughness) - 1) * y))"

definition fetch_order :: "int \<times> int \<times> int \<Rightarrow> int \<times> int \<times> int" where
  \<comment> \<open>the arguments \<open>(x, y, z)\<close> of \<^verbatim>\<open>fetch_pixel\<close> for the sample \<open>(face, x, y)\<close>\<close>
  "fetch_order sample = (fst (snd sample), snd (snd sample), fst sample)"

definition constant_peeker :: "LColor \<Rightarrow> TexturePeeker" where
  \<comment> \<open>a peeker over texels of one colour\<close>
  "constant_peeker c x y z = c"

definition five_face_texture :: Texture where
  "five_face_texture =
     \<lparr>z_size_c = 5, x_size_c = 4, y_size_c = 4, might_have_ram_image = True,
      peek = Some (constant_peeker (1, 1, 1, 1))\<rparr>"

definition two_by_two_cube :: Texture where
  "two_by_two_cube =
     \<lparr>z_size_c = 6, x_size_c = 2, y_size_c = 2, might_have_ram_image = True,
      peek = Some (constant_peeker (1, 1, 1, 1))\<rparr>"

definition integrate_brdf_ndotl ::
  "LVector3 \<Rightarrow> LVector3 \<Rightarrow> real \<Rightarrow> int \<Rightarrow> int \<Rightarrow> (error + real) option" where
  \<comment> \<open>the value of \<^verbatim>\<open>ndotl\<close> that the loop body of \<open>integrate_brdf\<close> computes for sample \<open>idx\<close>\<close>
  "integrate_brdf_ndotl view normal roughness num_samples idx =
     bindP (hammersley idx num_samples) (\<lambda>xi.
     bindP (Some (importance_sample_ggx xi normal roughness)) (\<lambda>hvec.
       let light = lv3_normalized
                     (lv3_sub (lv3_scale (lv3_scale hvec 2) (lv3_dot view hvec)) view)
       in Some (Inr (max (vz light) 0))))"

definition integrate_brdf_term ::
  "real \<Rightarrow> LVector3 \<Rightarrow> LVector3 \<Rightarrow> real \<Rightarrow> int \<Rightarrow> int \<Rightarrow> LVector2" where
  \<comment> \<open>what the loop body of \<open>integrate_brdf\<close> adds to zero accumulators for sample \<open>idx\<close>\<close>
  "integrate_brdf_term ndotv view normal roughness num_samples idx =
     (case integrate_brdf_body ndotv view normal roughness num_samples (0, 0) idx of
        Some (Inr c) \<Rightarrow> c
      | _ \<Rightarrow> (0, 0))"



section \<open>Conversions from integers to floats\<close>

text \<open>
  The range of a double is far beyond every integer of 64 bits, so a conversion of such
  an integer returns it; and a quotient of two integers of magnitude at most 1 is
  returned.
\<close>

lemma float_limit_bounds: "2 ^ 64 < float_limit" "1 < real_of_int float_limit"
  by (simp_all add: float_limit_def)

lemma py_float_in_range: "\<bar>n\<bar> \<le> 2 ^ 64 \<Longrightarrow> py_float n = Inr (real_of_int n)"
  using float_limit_bounds(1) by (simp add: py_float_def)

lemma int_truediv_in_range:
  assumes "b \<noteq> 0" and "\<bar>real_of_int a / real_of_int b\<bar> \<le> 1"
  shows "int_truediv a b = Inr (real_of_int a / real_of_int b)"
proof -
  have "\<bar>real_of_int a / real_of_int b\<bar> < real_of_int float_limit"
    using assms(2) float_limit_bounds(2) by linarith
  then show ?thesis using assms(1) by (simp add: int_truediv_def)
qed

lemma py_float_error: "py_float n = Inl e \<Longrightarrow> e = OverflowError"
  by (simp add: py_float_def split: if_splits)

section \<open>Properties of the sample sequence\<close>

text \<open>
  For an index that is not negative the loop of \<open>van_der_corput\<close> in base 2 returns, and
  what it adds to the running result is less than one unit of the current denominator.
\<close>

lemma van_der_corput_loop_returns:
  "0 \<le> idx \<Longrightarrow> 0 < denom \<Longrightarrow>
   \<exists>r. van_der_corput_loop idx 2 denom result = Some (Inr r)
       \<and> result \<le> r \<and> r < result + 1 / real_of_int denom"
proof (induction "nat idx" arbitrary: idx denom result rule: less_induct)
  case less
  show ?case
  proof (cases "idx = 0")
    case True
    with less.prems show ?thesis
      by (simp add: van_der_corput_loop.simps)
  next
    case False
    with less.prems have pos: "0 < idx" by simp
    define q where "q = real_of_int (idx mod 2) / real_of_int (denom * 2)"
    have smaller: "nat (idx div 2) < nat idx" and nonneg: "0 \<le> idx div 2"
      using pos by auto
    have d2: "0 < denom * 2" using less.prems by simp
    from less.hyps [OF smaller nonneg d2, of "result + q"]
    obtain r where r: "van_der_corput_loop (idx div 2) 2 (denom * 2) (result + q) = Some (Inr r)"
      and lo: "result + q \<le> r" and hi: "r < result + q + 1 / real_of_int (denom * 2)"
      by blast
    have q0: "0 \<le> q" using less.prems by (simp add: q_def)
    have "idx mod 2 = 0 \<or> idx mod 2 = 1" by presburger
    then have q1: "q \<le> 1 / real_of_int (denom * 2)"
      using less.prems by (auto simp: q_def)
    have half: "1 / real_of_int (denom * 2) + 1 / real_of_int (denom * 2) = 1 / real_of_int denom"
      using less.prems by (simp add: field_simps)
    have "1 / real_of_int (denom * 2) \<le> 1" using less.prems by simp
    with q0 q1 have "\<bar>q\<bar> \<le> 1" by linarith
    then have tq: "int_truediv (idx mod 2) (denom * 2) = Inr q"
      unfolding q_def using d2 by (intro int_truediv_in_range) simp_all
    have step: "van_der_corput_loop idx 2 denom result
                  = van_der_corput_loop (idx div 2) 2 (denom * 2) (result + q)"
      using False
      by (subst van_der_corput_loop.simps) (simp add: tq)
    have a: "result \<le> r" using lo q0 by linarith
    have b: "r < result + 1 / real_of_int denom" using hi q1 half by linarith
    have c: "van_der_corput_loop idx 2 denom result = Some (Inr r)"
      using step r by (rule trans)
    show ?thesis using a b c by blast
  qed
qed

lemma van_der_corput_returns:
  "0 \<le> idx \<Longrightarrow> \<exists>v. van_der_corput idx 2 = Some (Inr v) \<and> 0 \<le> v \<and> v < 1"
  using van_der_corput_loop_returns [of idx 1 0] by (simp add: van_der_corput_def)

lemma hammersley_returns:
  assumes "0 \<le> idx" and "0 < maxnum"
    and "real_of_int idx / real_of_int maxnum < real_of_int float_limit"
  shows "\<exists>v. van_der_corput idx 2 = Some (Inr v) \<and> 0 \<le> v \<and> v < 1
      \<and> hammersley idx maxnum = Some (Inr (real_of_int idx / real_of_int maxnum, v))"
proof -
  from van_der_corput_returns [OF assms(1)] obtain v
    where v: "van_der_corput idx 2 = Some (Inr v)" "0 \<le> v" "v < 1" by blast
  have "0 \<le> real_of_int idx / real_of_int maxnum" using assms(1,2) by simp
  then have "\<bar>real_of_int idx / real_of_int maxnum\<bar> < real_of_int float_limit"
    using assms(3) by linarith
  then have "int_truediv idx maxnum = Inr (real_of_int idx / real_of_int maxnum)"
    using assms(2) by (simp add: int_truediv_def)
  then have "hammersley idx maxnum = Some (Inr (real_of_int idx / real_of_int maxnum, v))"
    using v(1) by (simp add: hammersley_def bindP_def)
  with v show ?thesis by blast
qed

lemma hammersley_in_loop:
  assumes "0 \<le> idx" and "idx < maxnum"
  shows "\<exists>v. van_der_corput idx 2 = Some (Inr v) \<and> 0 \<le> v \<and> v < 1
      \<and> hammersley idx maxnum = Some (Inr (real_of_int idx / real_of_int maxnum, v))"
proof -
  have n: "0 < maxnum" using assms by simp
  have "real_of_int idx / real_of_int maxnum < 1" using assms by simp
  then have "real_of_int idx / real_of_int maxnum < real_of_int float_limit"
    using float_limit_bounds(2) by linarith
  with assms(1) n show ?thesis by (rule hammersley_returns)
qed

text \<open>
  Claim C9, as amended. For every index \<open>i \<ge> 0\<close> and count \<open>n > 0\<close> whose quotient
  \<open>i / n\<close> is within the range of a double, \<open>hammersley i n\<close> returns the pair of
  \<open>i / n\<close> and the value that \<open>van_der_corput i 2\<close> returns; and \<open>hammersley 0 n\<close> is
  \<open>(0, 0)\<close> for every \<open>n > 0\<close>.
\<close>

theorem hammersley_is_quotient_and_radical_inverse:
  assumes "0 \<le> i" and "0 < n"
    and "real_of_int i / real_of_int n < real_of_int float_limit"
  shows "(\<exists>v. van_der_corput i 2 = Some (Inr v)
            \<and> hammersley i n = Some (Inr (real_of_int i / real_of_int n, v)))
         \<and> hammersley 0 n = Some (Inr (0, 0))"
proof
  show "\<exists>v. van_der_corput i 2 = Some (Inr v)
          \<and> hammersley i n = Some (Inr (real_of_int i / real_of_int n, v))"
    using hammersley_returns [OF assms] by blast
  have "int_truediv 0 n = Inr 0"
    using assms(2) int_truediv_in_range [of n 0] by simp
  then show "hammersley 0 n = Some (Inr (0, 0))"
    by (simp add: hammersley_def bindP_def van_der_corput_def van_der_corput_loop.simps)
qed

theorem hammersley_is_quotient_and_radical_inverse_witness:
  "(0::int) \<le> 3 \<and> (0::int) < 4 \<and> real_of_int 3 / real_of_int 4 < real_of_int float_limit
   \<and> van_der_corput 3 2 = Some (Inr (3 / 4))
   \<and> hammersley 3 4 = Some (Inr (3 / 4, 3 / 4))
   \<and> hammersley 0 4 = Some (Inr (0, 0))"
proof -
  have v: "van_der_corput 3 2 = Some (Inr (3 / 4))"
    by (simp add: van_der_corput_def van_der_corput_loop.simps int_truediv_in_range)
  have q: "real_of_int 3 / real_of_int 4 < real_of_int float_limit"
    using float_limit_bounds(2) by simp
  show ?thesis
    using hammersley_is_quotient_and_radical_inverse [of 3 4] v q by auto
qed

text \<open>
  A quotient beyond the range: the division of the two integers raises, and no pair is
  returned.
\<close>

theorem hammersley_quotient_overflows:
  "hammersley (2 ^ 1024) 1 = Some (Inl OverflowError)"
  by (simp add: hammersley_def bindP_def int_truediv_def float_limit_def)

text \<open>
  Claim C4, as amended. The radical inverse of 5 in base 2 is \<open>0.625\<close> (the digits 101
  mirrored behind the point: a half and an eighth), so \<open>hammersley 5 1024\<close> is
  \<open>(5/1024, 0.625)\<close>; the value \<open>0.8125\<close> of the claim is not what the code returns.
\<close>

theorem hammersley_5_1024:
  "van_der_corput 5 2 = Some (Inr 0.625)
   \<and> hammersley 5 1024 = Some (Inr (5 / 1024, 0.625))"
  by (simp add: hammersley_def bindP_def van_der_corput_def van_der_corput_loop.simps
      int_truediv_in_range)

theorem van_der_corput_5_is_not_0_8125:
  "van_der_corput 5 2 \<noteq> Some (Inr 0.8125)
   \<and> hammersley 5 1024 \<noteq> Some (Inr (5 / 1024, 0.8125))"
  by (simp add: hammersley_def bindP_def van_der_corput_def van_der_corput_loop.simps
      int_truediv_in_range)

section \<open>Properties of the texel direction\<close>

text \<open>
  Over a whole face of at least 2 by 2 texels, shown for the face of index 4 and the
  sizes a texture can have: the first remapped coordinate stays in \<open>[0, 1]\<close> and the
  second in \<open>(-1/2, 1/2]\<close>, so the directions cover one quarter of the face at most.
\<close>

lemma calc_vector_remap_range:
  assumes "2 \<le> dimen" "dimen \<le> 2 ^ 31" "0 \<le> xloc" "xloc < dimen" "0 \<le> yloc" "yloc < dimen"
  shows "\<exists>xcoord ycoord. calc_vector dimen 4 xloc yloc = Inr (xcoord, ycoord, 1)
           \<and> 0 \<le> xcoord \<and> xcoord \<le> 1 \<and> - (1 / 2) < ycoord \<and> ycoord \<le> 1 / 2"
proof -
  define dx where "dx = real_of_int ((dimen - 1) * 2 - 1)"
  define dy where "dy = real_of_int ((dimen - 1) * 2)"
  have dx: "0 < dx" "real_of_int xloc \<le> dx" and x0: "0 \<le> real_of_int xloc"
    using assms(1,3,4) by (simp_all add: dx_def)
  have dy: "0 < dy" "2 * real_of_int (1 - yloc) \<le> dy" "- dy < 2 * real_of_int (1 - yloc)"
    using assms(1,5,6) by (simp_all add: dy_def)
  have f: "py_float xloc = Inr (real_of_int xloc)" "py_float ((dimen - 1) * 2 - 1) = Inr dx"
    "py_float (1 - yloc) = Inr (real_of_int (1 - yloc))" "py_float ((dimen - 1) * 2) = Inr dy"
    unfolding dx_def dy_def using assms by (simp_all add: py_float_in_range)
  have "calc_vector dimen 4 xloc yloc
          = Inr (real_of_int xloc / dx, real_of_int (1 - yloc) / dy, 1)"
    unfolding calc_vector_def f using dx(1) dy(1) by (simp add: bindE_def truediv_def)
  moreover have "0 \<le> real_of_int xloc / dx" "real_of_int xloc / dx \<le> 1"
    using dx x0 by (simp_all add: divide_le_eq)
  moreover have "- (1 / 2) < real_of_int (1 - yloc) / dy" "real_of_int (1 - yloc) / dy \<le> 1 / 2"
    using dy by (simp_all add: field_simps)
  ultimately show ?thesis by blast
qed

text \<open>
  Claim C1. The four texels of a 2 by 2 face, here the face of index 4: the code sends
  them to the directions with coordinates \<open>0\<close> or \<open>1\<close> across and \<open>1/2\<close> or \<open>0\<close> down, the
  texel \<open>(0, 1)\<close> to the centre \<open>(0, 0, 1)\<close> of the face, where a remap of the texel range
  onto \<open>[-1, 1]\<close> puts the four texels at the four corners \<open>(\<plusminus>1, \<plusminus>1, 1)\<close>.
\<close>

theorem calc_vector_two_by_two_face:
  "calc_vector 2 4 0 0 = Inr (0, 1 / 2, 1)
   \<and> calc_vector 2 4 1 0 = Inr (1, 1 / 2, 1)
   \<and> calc_vector 2 4 0 1 = Inr (0, 0, 1)
   \<and> calc_vector 2 4 1 1 = Inr (1, 0, 1)"
  by (simp add: calc_vector_def bindE_def truediv_def py_float_in_range)

text \<open>
  Claim C10, as amended. For a face index outside 0 to 5 \<open>calc_vector\<close> returns no
  vector, whatever the other arguments, and raises no validation error of its own. It
  fails with \<open>OverflowError\<close> when one of the four integers it converts with
  \<^verbatim>\<open>float(...)\<close>, which are \<open>xloc\<close>, \<open>(dim - 1) * 2 - 1\<close>, \<open>1 - yloc\<close> and
  \<open>(dim - 1) * 2\<close>, is beyond the range of a double; otherwise with the division by
  zero of the row remap when \<open>dim\<close> is 1; and otherwise, the face cases being reached,
  with the unbound local variable. So a vector is returned only for the faces 0 to 5.
\<close>

theorem calc_vector_outside_faces:
  assumes "face_idx < 0 \<or> 5 < face_idx"
  shows "calc_vector dimen face_idx xloc yloc
           = Inl (if float_limit \<le> \<bar>xloc\<bar> \<or> float_limit \<le> \<bar>(dimen - 1) * 2 - 1\<bar>
                     \<or> float_limit \<le> \<bar>1 - yloc\<bar> \<or> float_limit \<le> \<bar>(dimen - 1) * 2\<bar>
                  then OverflowError
                  else if dimen = 1 then ZeroDivisionError
                  else UnboundLocalError)"
proof -
  have odd: "(dimen - 1) * 2 - 1 \<noteq> 0" by presburger
  show ?thesis
    using assms odd by (auto simp: calc_vector_def bindE_def truediv_def py_float_def)
qed

theorem calc_vector_outside_faces_witness:
  "((6::int) < 0 \<or> (5::int) < 6) \<and> calc_vector 2 6 0 0 = Inl UnboundLocalError"
  using calc_vector_outside_faces [of 6 2 0 0] float_limit_bounds(1) by simp

text \<open>
  Two calls with the face index 6 that fail before the face cases are reached, and not
  with the unbound local variable: a face of one texel, and a column beyond the range of
  a double on a face of two.
\<close>

theorem calc_vector_fails_before_faces:
  "calc_vector 1 6 0 0 = Inl ZeroDivisionError
   \<and> calc_vector 1 6 0 0 \<noteq> Inl UnboundLocalError
   \<and> calc_vector 2 6 (10 ^ 309) 0 = Inl OverflowError
   \<and> calc_vector 2 6 (10 ^ 309) 0 \<noteq> Inl UnboundLocalError"
  by (simp add: calc_vector_def bindE_def truediv_def py_float_def float_limit_def)

section \<open>Properties of the GGX sampler\<close>

text \<open>
  For a second coordinate of the sample point in \<open>[0, 1)\<close>, which is where the sample
  sequence lies, neither the division nor the two square roots of
  \<open>importance_sample_ggx\<close> fail, whatever the normal and the roughness.
\<close>


lemma ggx_ratio_bounds:
  fixes a y :: real
  assumes "0 \<le> y" "y < 1"
  shows "0 < 1 + (a * a * (a * a) - 1) * y"
    and "0 < (1 - y) / (1 + (a * a * (a * a) - 1) * y)"
    and "(1 - y) / (1 + (a * a * (a * a) - 1) * y) \<le> 1"
proof -
  have sq: "0 \<le> a * a * (a * a)" by simp
  have "1 + (a * a * (a * a) - 1) * y = (1 - y) + a * a * (a * a) * y"
    by (simp add: algebra_simps)
  moreover have "0 \<le> a * a * (a * a) * y" using sq assms(1) by (rule mult_nonneg_nonneg)
  ultimately have le: "1 - y \<le> 1 + (a * a * (a * a) - 1) * y"
    by linarith
  then show d: "0 < 1 + (a * a * (a * a) - 1) * y"
    using assms(2) by linarith
  show "0 < (1 - y) / (1 + (a * a * (a * a) - 1) * y)"
    using d assms(2) by simp
  show "(1 - y) / (1 + (a * a * (a * a) - 1) * y) \<le> 1"
    using d le by (simp add: divide_le_eq)
qed

lemma ggx_costheta_bounds:
  assumes "0 \<le> y" "y < 1"
  shows "0 < ggx_costheta r y" and "ggx_costheta r y \<le> 1"
    and "ggx_costheta r y * ggx_costheta r y \<le> 1"
proof -
  note b = ggx_ratio_bounds [OF assms, of r]
  show p: "0 < ggx_costheta r y" using b(2) by (simp add: ggx_costheta_def)
  show l: "ggx_costheta r y \<le> 1" using b(3) by (simp add: ggx_costheta_def)
  show "ggx_costheta r y * ggx_costheta r y \<le> 1"
    using p l by (simp add: mult_le_one)
qed

lemma importance_sample_ggx_eq:
  assumes "0 \<le> snd xi" "snd xi < 1"
  shows "importance_sample_ggx xi normal roughness =
     (let c = ggx_costheta roughness (snd xi);
          s = sqrt (1 - c * c);
          phi = 2 * pi * fst xi
      in Inr (lv3_normalized
                (lv3_add (lv3_add (lv3_scale (tangent_for normal) (cos phi * s))
                                  (lv3_scale (bitangent_for normal) (sin phi * s)))
                         (lv3_scale normal c))))"
proof -
  note b = ggx_ratio_bounds [OF assms, of roughness]
  note c = ggx_costheta_bounds [OF assms, of roughness]
  have d: "1 + (roughness * roughness * (roughness * roughness) - 1) * snd xi \<noteq> 0"
    using b(1) by simp
  have r: "\<not> (1 - snd xi) / (1 + (roughness * roughness * (roughness * roughness) - 1) * snd xi) < 0"
    using b(2) by simp
  have s: "\<not> 1 - ggx_costheta roughness (snd xi) * ggx_costheta roughness (snd xi) < 0"
    using c(3) by simp
  show ?thesis
    using d r s
    by (simp add: importance_sample_ggx_def Let_def bindE_def truediv_def math_sqrt_def
        ggx_costheta_def [symmetric] vx_def vy_def vz_def)
qed


text \<open>
  Claim C3. At the normal \<open>(0, 0, -1)\<close>, parallel to the Z axis, the code takes \<open>+Z\<close> as
  the reference vector and not \<open>+X\<close>: the comparison \<open>normal.z < 0.999\<close> holds and its
  absolute value is 1. The cross product with the normal is then zero, tangent and
  bitangent are zero, and every sample point gives the normal itself.
\<close>

theorem importance_sample_ggx_normal_minus_z: "upvec_for (0, 0, - 1) = (0, 0, 1)
   \<and> tangent_for (0, 0, - 1) = (0, 0, 0)
   \<and> bitangent_for (0, 0, - 1) = (0, 0, 0)
   \<and> importance_sample_ggx (0, 1 / 2) (0, 0, - 1) 1 = Inr (0, 0, - 1)
   \<and> importance_sample_ggx (1 / 4, 1 / 2) (0, 0, - 1) 1 = Inr (0, 0, - 1)"
proof -
  have u: "upvec_for (0, 0, - 1) = (0, 0, 1)"
    by (simp add: upvec_for_def vz_def)
  have t: "tangent_for (0, 0, - 1) = (0, 0, 0)"
    by (simp add: tangent_for_def u lv3_cross_def lv3_normalized_def lv3_dot_def vx_def vy_def vz_def)
  have b: "bitangent_for (0, 0, - 1) = (0, 0, 0)"
    by (simp add: bitangent_for_def t lv3_cross_def vx_def vy_def vz_def)
  have n: "lv3_normalized (0, 0, - c) = (0, 0, - 1)" if "0 < c" for c :: real
    using that by (simp add: lv3_normalized_def lv3_dot_def vx_def vy_def vz_def Let_def)
  have c: "ggx_costheta 1 (1 / 2) = sqrt (1 / 2)"
    by (simp add: ggx_costheta_def)
  have i: "importance_sample_ggx (x, 1 / 2) (0, 0, - 1) 1 = Inr (0, 0, - 1)" for x
    using n [of "sqrt (1 / 2)"]
    by (simp add: importance_sample_ggx_eq Let_def t b c lv3_add_def lv3_scale_def vx_def vy_def vz_def)
  show ?thesis using u t b i by simp
qed


section \<open>Properties of the prefilter of one direction\<close>

lemma range_list_mem: "i \<in> set (range_list n) \<longleftrightarrow> 0 \<le> i \<and> i < n"
  by (auto simp: range_list_def image_iff intro: bexI [of _ "nat i"])

lemma for_loop_invariant:
  assumes "\<And>s i. i \<in> set xs \<Longrightarrow> P s \<Longrightarrow> \<exists>s'. body s i = Some (Inr s') \<and> P s'"
    and "P s"
  shows "\<exists>s'. for_loop body xs s = Some (Inr s') \<and> P s'"
  using assms
proof (induction xs arbitrary: s)
  case Nil
  then show ?case by simp
next
  case (Cons i xs)
  from Cons.prems(1) [of i s] Cons.prems(2)
  obtain s1 where s1: "body s i = Some (Inr s1)" "P s1" by auto
  have "\<exists>s'. for_loop body xs s1 = Some (Inr s') \<and> P s'"
    using Cons.prems(1) s1(2) by (intro Cons.IH) auto
  then show ?case using s1(1) by (simp add: bindP_def)
qed

lemma filter_sample_body_returns:
  assumes "0 \<le> idx" "idx < n" "0 \<le> snd acc" "snd acc = 0 \<longrightarrow> fst acc = (0, 0, 0)"
  shows "\<exists>acc'. filter_sample_body pos env normal r n acc idx = Some (Inr acc')
            \<and> 0 \<le> snd acc' \<and> (snd acc' = 0 \<longrightarrow> fst acc' = (0, 0, 0))"
proof -
  from hammersley_in_loop [OF assms(1,2)] obtain v
    where v: "0 \<le> v" "v < 1"
      "hammersley idx n = Some (Inr (real_of_int idx / real_of_int n, v))" by blast
  obtain h where h: "importance_sample_ggx (real_of_int idx / real_of_int n, v) normal r = Inr h"
    using v(1,2) by (simp add: importance_sample_ggx_eq Let_def)
  define ndotl where "ndotl = max (lv3_dot normal (lv3_normalized
      (lv3_sub (lv3_scale (lv3_scale h 2) (lv3_dot normal h)) normal))) 0"
  define acc' where "acc' = (if 0 < ndotl
      then (lv3_add (fst acc) (lv3_scale (xyz (env (vx pos) (vy pos) (vz pos))) ndotl),
            snd acc + ndotl)
      else acc)"
  have run: "filter_sample_body pos env normal r n acc idx = Some (Inr acc')"
    by (simp add: filter_sample_body_def Let_def v(3) h bindP_def acc'_def ndotl_def)
  have "0 \<le> snd acc'" and "snd acc' = 0 \<longrightarrow> fst acc' = (0, 0, 0)"
    using assms(3,4) by (simp_all add: acc'_def)
  with run show ?thesis by blast
qed

lemma filter_sample_loop_returns:
  "\<exists>acc. filter_sample_loop pos env r n = Some (Inr acc)
        \<and> 0 \<le> snd acc \<and> (snd acc = 0 \<longrightarrow> fst acc = (0, 0, 0))"
  unfolding filter_sample_loop_def
proof (rule for_loop_invariant)
  fix s :: "LVector3 \<times> real" and i
  assume "i \<in> set (range_list n)" and "0 \<le> snd s \<and> (snd s = 0 \<longrightarrow> fst s = (0, 0, 0))"
  then show "\<exists>s'. filter_sample_body pos env (lv3_normalized pos) r n s i = Some (Inr s')
                 \<and> 0 \<le> snd s' \<and> (snd s' = 0 \<longrightarrow> fst s' = (0, 0, 0))"
    by (intro filter_sample_body_returns) (simp_all add: range_list_mem)
qed simp


text \<open>
  Claim C2, as amended. The loop of \<open>filter_sample\<close> always returns its two accumulators,
  and the total weight is never negative. When the total weight is zero, nothing was
  accumulated and the final division, which the code does not guard, is zero by zero:
  the value returned is not a zero colour but the engine's non-finite quotient.
  Otherwise the weighted average is returned.
\<close>

theorem filter_sample_unguarded_division:
  "\<exists>acc w. filter_sample_loop pos env r n = Some (Inr (acc, w)) \<and> 0 \<le> w
     \<and> (w = 0 \<longrightarrow> acc = (0, 0, 0) \<and> filter_sample pos env r n = Some (Inr NonFinite))
     \<and> (w \<noteq> 0 \<longrightarrow> filter_sample pos env r n = Some (Inr (lv3_div acc w)) \<and> lv3_div acc w \<noteq> NonFinite)"
proof -
  from filter_sample_loop_returns [of pos env r n] obtain acc w
    where a: "filter_sample_loop pos env r n = Some (Inr (acc, w))" "0 \<le> w"
      "w = 0 \<longrightarrow> acc = (0, 0, 0)"
    by (metis prod.collapse)
  have "filter_sample pos env r n = Some (Inr (lv3_div acc w))"
    by (simp add: filter_sample_def a(1) bindP_def)
  then show ?thesis using a by (auto simp: lv3_div_def)
qed

theorem filter_sample_unguarded_division_witness:
  "filter_sample (0, 1, 0) (constant_env (1, 1, 1, 1)) 1 0 = Some (Inr NonFinite)"
  using filter_sample_unguarded_division [of "(0, 1, 0)" "constant_env (1, 1, 1, 1)" 1 0]
  by (auto simp: filter_sample_loop_def range_list_def)

text \<open>
  With no sample drawn the total weight is zero, and the call neither returns the zero
  colour nor a finite one.
\<close>

theorem filter_sample_no_samples:
  "filter_sample_loop (1, 0, 0) (constant_env (1, 1, 1, 1)) (1 / 2) 0 = Some (Inr ((0, 0, 0), 0))
   \<and> filter_sample (1, 0, 0) (constant_env (1, 1, 1, 1)) (1 / 2) 0 = Some (Inr NonFinite)
   \<and> filter_sample (1, 0, 0) (constant_env (1, 1, 1, 1)) (1 / 2) 0 \<noteq> Some (Inr (Finite (0, 0, 0)))"
  by (simp add: filter_sample_def filter_sample_loop_def range_list_def bindP_def lv3_div_def)

section \<open>Properties of the spherical-harmonic projection\<close>

text \<open>
  The sizes of a texture are integers of 32 bits, far inside the range of a double. The
  solid angle fails only by a conversion, and neither it nor \<open>calc_vector\<close> nor the
  reciprocal of the size raises a \<open>RuntimeError\<close>, so after the checks none is raised.
\<close>

lemma sint_32_bounds:
  fixes w :: "32 word"
  shows "- (2 ^ 31) \<le> sint w" "sint w < 2 ^ 31"
  using sint_ge [of w] sint_lt [of w] by simp_all

lemma x_size_bounds: "- (2 ^ 31) \<le> x_size tex" "x_size tex < 2 ^ 31"
  unfolding x_size_def by (rule sint_32_bounds)+

lemma calc_sphere_quadrant_area_returns:
  "\<exists>a. calc_sphere_quadrant_area x y = Inr a"
proof -
  have "0 \<le> x * x" and "0 \<le> y * y" by simp_all
  then have "\<not> x * x + y * y + 1 < 0" by linarith
  then show ?thesis by (simp add: calc_sphere_quadrant_area_def math_sqrt_def bindE_def)
qed

lemma calc_solid_angle_returns:
  assumes "\<bar>x\<bar> \<le> 2 ^ 64" "\<bar>y\<bar> \<le> 2 ^ 64"
  shows "\<exists>a. calc_solid_angle invdim x y = Inr a"
proof -
  obtain q where q: "\<And>x y. calc_sphere_quadrant_area x y = Inr (q x y)"
    using calc_sphere_quadrant_area_returns by metis
  show ?thesis
    by (simp add: calc_solid_angle_def Let_def q bindE_def py_float_in_range [OF assms(1)]
        py_float_in_range [OF assms(2)])
qed

lemma calc_solid_angle_not_runtime_error:
  "calc_solid_angle invdim x y \<noteq> Inl (RuntimeError msg)"
proof -
  obtain q where q: "\<And>x y. calc_sphere_quadrant_area x y = Inr (q x y)"
    using calc_sphere_quadrant_area_returns by metis
  show ?thesis
    by (simp add: calc_solid_angle_def Let_def q bindE_def py_float_def)
qed

lemma calc_vector_returns:
  assumes "2 \<le> dimen" "dimen \<le> 2 ^ 31" "0 \<le> face" "face \<le> 5"
    "\<bar>x\<bar> \<le> 2 ^ 31" "\<bar>y\<bar> \<le> 2 ^ 31"
  shows "\<exists>v. calc_vector dimen face x y = Inr v"
proof -
  have f: "py_float x = Inr (real_of_int x)"
    "py_float ((dimen - 1) * 2 - 1) = Inr (real_of_int ((dimen - 1) * 2 - 1))"
    "py_float (1 - y) = Inr (real_of_int (1 - y))"
    "py_float ((dimen - 1) * 2) = Inr (real_of_int ((dimen - 1) * 2))"
    using assms(1,2,5,6) by (simp_all add: py_float_in_range)
  have nz: "real_of_int ((dimen - 1) * 2 - 1) \<noteq> 0" "real_of_int ((dimen - 1) * 2) \<noteq> 0"
    using assms(1) by simp_all
  have "face = 0 \<or> face = 1 \<or> face = 2 \<or> face = 3 \<or> face = 4 \<or> face = 5"
    using assms(3,4) by presburger
  then show ?thesis
    unfolding calc_vector_def f using nz by (auto simp: bindE_def truediv_def)
qed

lemma calc_vector_not_runtime_error: "calc_vector dimen face x y \<noteq> Inl (RuntimeError msg)"
  by (simp add: calc_vector_def bindE_def truediv_def py_float_def)

lemma invdim_not_runtime_error:
  "bindE (py_float dimen) (truediv 1) \<noteq> Inl (RuntimeError msg)"
  by (simp add: bindE_def truediv_def py_float_def)

lemma sh_sample_not_runtime_error:
  "sh_sample peeker dimen invdim sample shcoeffs \<noteq> Inl (RuntimeError msg)"
proof (cases "calc_solid_angle invdim (fst (snd sample)) (snd (snd sample))")
  case (Inl e)
  with calc_solid_angle_not_runtime_error [of invdim "fst (snd sample)" "snd (snd sample)" msg]
  show ?thesis by (simp add: sh_sample_def Let_def bindE_def)
next
  case (Inr a)
  show ?thesis
    using calc_vector_not_runtime_error [of dimen "fst sample" "fst (snd sample)" "snd (snd sample)" msg]
    by (cases "calc_vector dimen (fst sample) (fst (snd sample)) (snd (snd sample))")
       (simp_all add: sh_sample_def Let_def Inr bindE_def)
qed

lemma sh_loop_not_runtime_error:
  "fst (sh_loop peeker dimen invdim samples st) \<noteq> Inl (RuntimeError msg)"
proof (induction samples arbitrary: st)
  case Nil
  then show ?case by (cases st) simp
next
  case (Cons s samples)
  obtain sh fetched where st: "st = (sh, fetched)" by (cases st)
  show ?case
    using sh_sample_not_runtime_error [of peeker dimen invdim s sh msg] Cons.IH
    by (cases "sh_sample peeker dimen invdim s sh") (simp_all add: st Let_def)
qed

lemma get_sh_coeffs_runtime_error_cases:
  "(\<exists>msg. fst (get_sh_coeffs_from_cube_map tex) = Inl (RuntimeError msg))
     \<longleftrightarrow> (z_size tex \<noteq> 6 \<or> x_size tex \<noteq> y_size tex
          \<or> \<not> might_have_ram_image tex \<or> peek tex = None)"
proof (cases "z_size tex \<noteq> 6 \<or> x_size tex \<noteq> y_size tex
          \<or> \<not> might_have_ram_image tex \<or> peek tex = None")
  case True
  then show ?thesis by (auto simp: get_sh_coeffs_from_cube_map_def)
next
  case False
  then obtain peeker where p: "peek tex = Some peeker" by auto
  have "fst (get_sh_coeffs_from_cube_map tex) \<noteq> Inl (RuntimeError msg)" for msg
  proof (cases "bindE (py_float (x_size tex)) (truediv 1)")
    case (Inl e)
    with invdim_not_runtime_error [of "x_size tex" msg] have "e \<noteq> RuntimeError msg" by simp
    with False p Inl show ?thesis
      by (simp add: get_sh_coeffs_from_cube_map_def)
  next
    case (Inr invdim)
    obtain r fetched where l: "sh_loop peeker (x_size tex) invdim
       (cube_samples (z_size tex) (x_size tex) (y_size tex)) (replicate 9 (0, 0, 0), []) = (r, fetched)"
      by (cases "sh_loop peeker (x_size tex) invdim
       (cube_samples (z_size tex) (x_size tex) (y_size tex)) (replicate 9 (0, 0, 0), [])")
    have "r \<noteq> Inl (RuntimeError msg)"
      using sh_loop_not_runtime_error [of peeker "x_size tex" invdim
          "cube_samples (z_size tex) (x_size tex) (y_size tex)" "(replicate 9 (0, 0, 0), [])" msg] l
      by simp
    with False p Inr l show ?thesis
      by (cases r) (simp_all add: get_sh_coeffs_from_cube_map_def Let_def)
  qed
  with False show ?thesis by blast
qed

text \<open>
  Claim C8. \<open>get_sh_coeffs_from_cube_map\<close> raises its \<open>RuntimeError\<close> exactly when the
  texture has not 6 faces, or its faces are not square, or it cannot be read back (it
  has no RAM image, or gives no peeker); and when it raises it, no texel has been
  fetched.
\<close>

theorem get_sh_coeffs_invalid_input:
  "((\<exists>msg. fst (get_sh_coeffs_from_cube_map tex) = Inl (RuntimeError msg))
      \<longleftrightarrow> (z_size tex \<noteq> 6 \<or> x_size tex \<noteq> y_size tex
           \<or> \<not> might_have_ram_image tex \<or> peek tex = None))
   \<and> ((\<exists>msg. fst (get_sh_coeffs_from_cube_map tex) = Inl (RuntimeError msg))
      \<longrightarrow> snd (get_sh_coeffs_from_cube_map tex) = [])"
proof -
  have c: "(\<exists>msg. fst (get_sh_coeffs_from_cube_map tex) = Inl (RuntimeError msg))
      \<longleftrightarrow> (z_size tex \<noteq> 6 \<or> x_size tex \<noteq> y_size tex
           \<or> \<not> might_have_ram_image tex \<or> peek tex = None)"
    by (rule get_sh_coeffs_runtime_error_cases)
  have "snd (get_sh_coeffs_from_cube_map tex) = []"
    if "z_size tex \<noteq> 6 \<or> x_size tex \<noteq> y_size tex
           \<or> \<not> might_have_ram_image tex \<or> peek tex = None"
    using that by (auto simp: get_sh_coeffs_from_cube_map_def)
  with c show ?thesis by auto
qed

theorem get_sh_coeffs_invalid_input_witness:
  "z_size five_face_texture \<noteq> 6
   \<and> (\<exists>msg. fst (get_sh_coeffs_from_cube_map five_face_texture) = Inl (RuntimeError msg))
   \<and> snd (get_sh_coeffs_from_cube_map five_face_texture) = []"
  using get_sh_coeffs_invalid_input [of five_face_texture]
  by (simp add: five_face_texture_def z_size_def)

text \<open>
  For a cube map that passes the checks and has faces of at least 2 by 2 texels the
  loop returns nine accumulators, having fetched every texel of the six faces in order.
\<close>

lemma sh_accumulate_length [simp]:
  "length (sh_accumulate color (get_sh_basis_from_vector vec) shcoeffs) = length shcoeffs"
  by (simp add: sh_accumulate_def get_sh_basis_from_vector_def Let_def)

lemma sh_sample_returns:
  assumes "2 \<le> dimen" "dimen \<le> 2 ^ 31" "0 \<le> fst sample" "fst sample \<le> 5"
    "0 \<le> fst (snd sample)" "fst (snd sample) < dimen"
    "0 \<le> snd (snd sample)" "snd (snd sample) < dimen"
  shows "\<exists>sh'. sh_sample peeker dimen invdim sample shcoeffs = Inr sh'
            \<and> length sh' = length shcoeffs"
proof -
  have b: "\<bar>fst (snd sample)\<bar> \<le> 2 ^ 31" "\<bar>snd (snd sample)\<bar> \<le> 2 ^ 31"
    using assms(2,5-8) by simp_all
  then have b64: "\<bar>fst (snd sample)\<bar> \<le> 2 ^ 64" "\<bar>snd (snd sample)\<bar> \<le> 2 ^ 64"
    by simp_all
  obtain a where a: "calc_solid_angle invdim (fst (snd sample)) (snd (snd sample)) = Inr a"
    using calc_solid_angle_returns [OF b64] by blast
  obtain v where v: "calc_vector dimen (fst sample) (fst (snd sample)) (snd (snd sample)) = Inr v"
    using calc_vector_returns [OF assms(1-4) b] by blast
  show ?thesis by (simp add: sh_sample_def Let_def a v bindE_def)
qed

lemma sh_loop_returns:
  assumes "2 \<le> dimen" "dimen \<le> 2 ^ 31"
    "\<forall>s \<in> set samples. 0 \<le> fst s \<and> fst s \<le> 5
        \<and> 0 \<le> fst (snd s) \<and> fst (snd s) < dimen \<and> 0 \<le> snd (snd s) \<and> snd (snd s) < dimen"
  shows "\<exists>acc. sh_loop peeker dimen invdim samples (shcoeffs, fetched)
                 = (Inr acc, fetched @ map fetch_order samples)
            \<and> length acc = length shcoeffs"
  using assms(3)
proof (induction samples arbitrary: shcoeffs fetched)
  case Nil
  then show ?case by simp
next
  case (Cons s samples)
  from Cons.prems have f: "0 \<le> fst s" "fst s \<le> 5" "0 \<le> fst (snd s)" "fst (snd s) < dimen"
    "0 \<le> snd (snd s)" "snd (snd s) < dimen" by simp_all
  from sh_sample_returns [OF assms(1,2) f, of peeker invdim shcoeffs]
  obtain sh' where sh': "sh_sample peeker dimen invdim s shcoeffs = Inr sh'"
    "length sh' = length shcoeffs" by blast
  from Cons.IH [of sh' "fetched @ [fetch_order s]"] Cons.prems
  obtain acc where "sh_loop peeker dimen invdim samples (sh', fetched @ [fetch_order s])
                 = (Inr acc, (fetched @ [fetch_order s]) @ map fetch_order samples)"
    "length acc = length sh'" by auto
  then show ?case using sh' by (simp add: Let_def fetch_order_def)
qed

lemma cube_samples_mem:
  "s \<in> set (cube_samples zs xs ys) \<Longrightarrow>
     0 \<le> fst s \<and> fst s < zs \<and> 0 \<le> fst (snd s) \<and> fst (snd s) < xs
       \<and> 0 \<le> snd (snd s) \<and> snd (snd s) < ys"
  by (auto simp: cube_samples_def range_list_def)

lemma cosine_lobe_length [simp]: "length (cosine_lobe acc) = length acc"
  by (simp add: cosine_lobe_def)

lemma cosine_lobe_nth:
  assumes "length acc = 9"
  shows "cosine_lobe acc ! 0 = lv3_scale (acc ! 0) a0"
    and "cosine_lobe acc ! 1 = lv3_scale (acc ! 1) a1"
    and "cosine_lobe acc ! 2 = lv3_scale (acc ! 2) a1"
    and "cosine_lobe acc ! 3 = lv3_scale (acc ! 3) a1"
    and "cosine_lobe acc ! 4 = lv3_scale (acc ! 4) a2"
    and "cosine_lobe acc ! 5 = lv3_scale (acc ! 5) a2"
    and "cosine_lobe acc ! 6 = lv3_scale (acc ! 6) a2"
    and "cosine_lobe acc ! 7 = lv3_scale (acc ! 7) a2"
    and "cosine_lobe acc ! 8 = acc ! 8"
  using assms by (simp_all add: cosine_lobe_def)

lemma get_sh_coeffs_returns:
  assumes "z_size tex = 6" "x_size tex = y_size tex" "might_have_ram_image tex"
    "peek tex = Some peeker" "2 \<le> x_size tex"
  shows "\<exists>acc. sh_loop peeker (x_size tex) (1 / real_of_int (x_size tex))
                  (cube_samples 6 (x_size tex) (x_size tex)) (replicate 9 (0, 0, 0), [])
                = (Inr acc, map fetch_order (cube_samples 6 (x_size tex) (x_size tex)))
            \<and> length acc = 9
            \<and> get_sh_coeffs_from_cube_map tex
                = (Inr (cosine_lobe acc), map fetch_order (cube_samples 6 (x_size tex) (x_size tex)))"
proof -
  have le: "x_size tex \<le> 2 ^ 31" using x_size_bounds(2) [of tex] by simp
  have samples: "\<forall>s \<in> set (cube_samples 6 (x_size tex) (x_size tex)).
      0 \<le> fst s \<and> fst s \<le> 5 \<and> 0 \<le> fst (snd s) \<and> fst (snd s) < x_size tex
        \<and> 0 \<le> snd (snd s) \<and> snd (snd s) < x_size tex"
    using cube_samples_mem by fastforce
  from sh_loop_returns [OF assms(5) le samples, of peeker "1 / real_of_int (x_size tex)" "replicate 9 (0, 0, 0)" "[]"]
  obtain acc where acc: "sh_loop peeker (x_size tex) (1 / real_of_int (x_size tex))
                  (cube_samples 6 (x_size tex) (x_size tex)) (replicate 9 (0, 0, 0), [])
                = (Inr acc, map fetch_order (cube_samples 6 (x_size tex) (x_size tex)))"
    "length acc = 9" by auto
  have "\<bar>x_size tex\<bar> \<le> 2 ^ 64" using assms(5) le by simp
  then have pf: "py_float (x_size tex) = Inr (real_of_int (x_size tex))"
    by (rule py_float_in_range)
  have nz: "real_of_int (x_size tex) \<noteq> 0" using assms(5) by simp
  have inv: "bindE (py_float (x_size tex)) (truediv 1) = Inr (1 / real_of_int (x_size tex))"
    using nz by (simp add: pf bindE_def truediv_def)
  have "get_sh_coeffs_from_cube_map tex
                = (Inr (cosine_lobe acc), map fetch_order (cube_samples 6 (x_size tex) (x_size tex)))"
    unfolding get_sh_coeffs_from_cube_map_def Let_def assms(2) [symmetric] assms(1) inv
    using assms(3,4) acc(1) by simp
  with acc show ?thesis by blast
qed

text \<open>
  The three scalars of the source are decimal literals. They are the values of \<open>\<pi>\<close>,
  \<open>2\<pi>/3\<close> and \<open>\<pi>/4\<close> to six decimals: two polynomial bounds of the arc tangent,
  from the sign of a derivative, and Machin's formula give \<open>\<pi>\<close> to six decimals.
\<close>


lemma arctan_lower_poly:
  fixes x :: real
  assumes "0 \<le> x"
  shows "x - x^3 / 3 + x^5 / 5 - x^7 / 7 + x^9 / 9 - x^11 / 11 \<le> arctan x"
proof -
  define f :: "real \<Rightarrow> real"
    where "f = (\<lambda>t. arctan t - (t - t^3 / 3 + t^5 / 5 - t^7 / 7 + t^9 / 9 - t^11 / 11))"
  have der: "\<exists>y. DERIV f t :> y \<and> 0 \<le> y" for t
  proof -
    have d: "DERIV f t :> inverse (1 + t\<^sup>2) - (1 - t^2 + t^4 - t^6 + t^8 - t^10)"
      unfolding f_def by (auto intro!: derivative_eq_intros)
    have pos: "0 < 1 + t\<^sup>2" by (simp add: add_pos_nonneg)
    have "(1 + t\<^sup>2) * (1 - t^2 + t^4 - t^6 + t^8 - t^10) = 1 - t^12"
      by (simp add: algebra_simps power2_eq_square power_numeral_reduce)
    then have "(1 - t^2 + t^4 - t^6 + t^8 - t^10) * (1 + t\<^sup>2) = 1 - t^12"
      by (simp only: mult.commute)
    then have e: "1 - t^2 + t^4 - t^6 + t^8 - t^10 = (1 - t^12) / (1 + t\<^sup>2)"
      using pos by (simp only: eq_divide_eq) simp
    have "inverse (1 + t\<^sup>2) - (1 - t^2 + t^4 - t^6 + t^8 - t^10)
            = 1 / (1 + t\<^sup>2) - (1 - t^12) / (1 + t\<^sup>2)"
      by (simp only: e inverse_eq_divide)
    also have "\<dots> = (1 - (1 - t^12)) / (1 + t\<^sup>2)"
      by (simp only: diff_divide_distrib)
    also have "\<dots> = t^12 / (1 + t\<^sup>2)" by simp
    finally have q: "inverse (1 + t\<^sup>2) - (1 - t^2 + t^4 - t^6 + t^8 - t^10) = t^12 / (1 + t\<^sup>2)" .
    have "0 \<le> t^12 / (1 + t\<^sup>2)"
      using pos by (intro divide_nonneg_pos) simp_all
    then have "0 \<le> inverse (1 + t\<^sup>2) - (1 - t^2 + t^4 - t^6 + t^8 - t^10)"
      by (simp only: q)
    with d show ?thesis by blast
  qed
  have "f 0 \<le> f x"
    by (rule DERIV_nonneg_imp_nondecreasing [OF assms]) (rule der)
  then show ?thesis by (simp add: f_def)
qed


lemma arctan_upper_poly:
  fixes x :: real
  assumes "0 \<le> x"
  shows "arctan x \<le> x - x^3 / 3 + x^5 / 5 - x^7 / 7 + x^9 / 9"
proof -
  define f :: "real \<Rightarrow> real"
    where "f = (\<lambda>t. (t - t^3 / 3 + t^5 / 5 - t^7 / 7 + t^9 / 9) - arctan t)"
  have der: "\<exists>y. DERIV f t :> y \<and> 0 \<le> y" for t
  proof -
    have d: "DERIV f t :> (1 - t^2 + t^4 - t^6 + t^8) - inverse (1 + t\<^sup>2)"
      unfolding f_def by (auto intro!: derivative_eq_intros)
    have pos: "0 < 1 + t\<^sup>2" by (simp add: add_pos_nonneg)
    have "(1 + t\<^sup>2) * (1 - t^2 + t^4 - t^6 + t^8) = 1 + t^10"
      by (simp add: algebra_simps power2_eq_square power_numeral_reduce)
    then have "(1 - t^2 + t^4 - t^6 + t^8) * (1 + t\<^sup>2) = 1 + t^10"
      by (simp only: mult.commute)
    then have e: "1 - t^2 + t^4 - t^6 + t^8 = (1 + t^10) / (1 + t\<^sup>2)"
      using pos by (simp only: eq_divide_eq) simp
    have "(1 - t^2 + t^4 - t^6 + t^8) - inverse (1 + t\<^sup>2)
            = (1 + t^10) / (1 + t\<^sup>2) - 1 / (1 + t\<^sup>2)"
      by (simp only: e inverse_eq_divide)
    also have "\<dots> = ((1 + t^10) - 1) / (1 + t\<^sup>2)"
      by (simp only: diff_divide_distrib)
    also have "\<dots> = t^10 / (1 + t\<^sup>2)" by simp
    finally have q: "(1 - t^2 + t^4 - t^6 + t^8) - inverse (1 + t\<^sup>2) = t^10 / (1 + t\<^sup>2)" .
    have "0 \<le> t^10 / (1 + t\<^sup>2)"
      using pos by (intro divide_nonneg_pos) simp_all
    then have "0 \<le> (1 - t^2 + t^4 - t^6 + t^8) - inverse (1 + t\<^sup>2)"
      by (simp only: q)
    with d show ?thesis by blast
  qed
  have "f 0 \<le> f x"
    by (rule DERIV_nonneg_imp_nondecreasing [OF assms]) (rule der)
  then show ?thesis by (simp add: f_def)
qed


lemma pi_six_decimals: "3.141592 < pi" "pi < 3.141593"
proof -
  have l5: "(1/5) - (1/5)^3 / 3 + (1/5)^5 / 5 - (1/5)^7 / 7 + (1/5)^9 / 9 - (1/5)^11 / 11
              \<le> arctan (1/5 :: real)"
    by (rule arctan_lower_poly) simp
  have u5: "arctan (1/5 :: real) \<le> (1/5) - (1/5)^3 / 3 + (1/5)^5 / 5 - (1/5)^7 / 7 + (1/5)^9 / 9"
    by (rule arctan_upper_poly) simp
  have l239: "(1/239) - (1/239)^3 / 3 + (1/239)^5 / 5 - (1/239)^7 / 7 + (1/239)^9 / 9
                - (1/239)^11 / 11 \<le> arctan (1/239 :: real)"
    by (rule arctan_lower_poly) simp
  have u239: "arctan (1/239 :: real)
                \<le> (1/239) - (1/239)^3 / 3 + (1/239)^5 / 5 - (1/239)^7 / 7 + (1/239)^9 / 9"
    by (rule arctan_upper_poly) simp
  have m: "pi = 16 * arctan (1/5) - 4 * arctan (1/239)"
    using machin by simp
  have "3.141592 < 16 * arctan (1/5 :: real) - 4 * arctan (1/239)"
    using l5 u239 by (simp add: power_numeral_reduce)
  then show "3.141592 < pi" by (simp only: m)
  have "16 * arctan (1/5 :: real) - 4 * arctan (1/239) < 3.141593"
    using u5 l239 by (simp add: power_numeral_reduce)
  then show "pi < 3.141593" by (simp only: m)
qed

lemma cosine_lobe_constants:
  "\<bar>a0 - pi\<bar> < 1 / 1000000" "\<bar>a1 - 2 * pi / 3\<bar> < 1 / 1000000" "\<bar>a2 - pi / 4\<bar> < 1 / 1000000"
proof -
  have lo: "3141592 / 1000000 < pi" and hi: "pi < 3141593 / 1000000"
    using pi_six_decimals by simp_all
  have c: "a0 = 3141593 / 1000000" "a1 = 2094395 / 1000000" "a2 = 785398 / 1000000"
    by (simp_all add: a0_def a1_def a2_def)
  show "\<bar>a0 - pi\<bar> < 1 / 1000000" using lo hi unfolding c by linarith
  show "\<bar>a1 - 2 * pi / 3\<bar> < 1 / 1000000" using lo hi unfolding c by linarith
  show "\<bar>a2 - pi / 4\<bar> < 1 / 1000000" using lo hi unfolding c by linarith
qed


text \<open>
  Claim C5. For a cube map that passes the checks, with faces of at least 2 by 2
  texels, the function accumulates over every texel of the six faces and then returns
  nine vectors: accumulator 0 times \<open>a0\<close>, accumulators 1 to 3 times \<open>a1\<close>,
  accumulators 4 to 7 times \<open>a2\<close>, and accumulator 8 as it is; \<open>a0\<close>, \<open>a1\<close> and \<open>a2\<close>
  are \<open>\<pi>\<close>, \<open>2\<pi>/3\<close> and \<open>\<pi>/4\<close> to within \<open>10\<^sup>-\<^sup>6\<close>.
\<close>

theorem get_sh_coeffs_cosine_lobe:
  assumes "z_size tex = 6" "x_size tex = y_size tex" "might_have_ram_image tex"
    "peek tex = Some peeker" "2 \<le> x_size tex"
  shows "\<exists>acc cs.
           sh_loop peeker (x_size tex) (1 / real_of_int (x_size tex))
               (cube_samples 6 (x_size tex) (x_size tex)) (replicate 9 (0, 0, 0), [])
             = (Inr acc, map fetch_order (cube_samples 6 (x_size tex) (x_size tex)))
         \<and> get_sh_coeffs_from_cube_map tex
             = (Inr cs, map fetch_order (cube_samples 6 (x_size tex) (x_size tex)))
         \<and> length acc = 9 \<and> length cs = 9
         \<and> cs ! 0 = lv3_scale (acc ! 0) a0
         \<and> cs ! 1 = lv3_scale (acc ! 1) a1
         \<and> cs ! 2 = lv3_scale (acc ! 2) a1
         \<and> cs ! 3 = lv3_scale (acc ! 3) a1
         \<and> cs ! 4 = lv3_scale (acc ! 4) a2
         \<and> cs ! 5 = lv3_scale (acc ! 5) a2
         \<and> cs ! 6 = lv3_scale (acc ! 6) a2
         \<and> cs ! 7 = lv3_scale (acc ! 7) a2
         \<and> cs ! 8 = acc ! 8
         \<and> \<bar>a0 - pi\<bar> < 1 / 1000000
         \<and> \<bar>a1 - 2 * pi / 3\<bar> < 1 / 1000000
         \<and> \<bar>a2 - pi / 4\<bar> < 1 / 1000000"
proof -
  from get_sh_coeffs_returns [OF assms] obtain acc
    where acc: "sh_loop peeker (x_size tex) (1 / real_of_int (x_size tex))
               (cube_samples 6 (x_size tex) (x_size tex)) (replicate 9 (0, 0, 0), [])
             = (Inr acc, map fetch_order (cube_samples 6 (x_size tex) (x_size tex)))"
      "length acc = 9"
      "get_sh_coeffs_from_cube_map tex
         = (Inr (cosine_lobe acc), map fetch_order (cube_samples 6 (x_size tex) (x_size tex)))"
    by blast
  note n = cosine_lobe_nth [OF acc(2)]
  have l: "length (cosine_lobe acc) = 9" using acc(2) by simp
  show ?thesis
    using acc l n cosine_lobe_constants
    by (intro exI [of _ acc] exI [of _ "cosine_lobe acc"]) simp
qed

theorem get_sh_coeffs_cosine_lobe_witness:
  "z_size two_by_two_cube = 6 \<and> x_size two_by_two_cube = y_size two_by_two_cube
   \<and> might_have_ram_image two_by_two_cube
   \<and> peek two_by_two_cube = Some (constant_peeker (1, 1, 1, 1))
   \<and> 2 \<le> x_size two_by_two_cube
   \<and> (\<exists>cs. fst (get_sh_coeffs_from_cube_map two_by_two_cube) = Inr cs \<and> length cs = 9)
   \<and> length (snd (get_sh_coeffs_from_cube_map two_by_two_cube)) = 24"
proof -
  have h: "z_size two_by_two_cube = 6" "x_size two_by_two_cube = y_size two_by_two_cube"
    "might_have_ram_image two_by_two_cube"
    "peek two_by_two_cube = Some (constant_peeker (1, 1, 1, 1))"
    "2 \<le> x_size two_by_two_cube"
    by (simp_all add: two_by_two_cube_def z_size_def x_size_def y_size_def)
  have x: "x_size two_by_two_cube = 2" by (simp add: two_by_two_cube_def x_size_def)
  have len: "length (cube_samples 6 2 2) = 24"
    by (simp add: cube_samples_def range_list_def upt_rec [of _ "numeral _"] upt_rec [of _ "Suc _"])
  from get_sh_coeffs_cosine_lobe [OF h] obtain acc :: "LVector3 list" and cs where
    "get_sh_coeffs_from_cube_map two_by_two_cube
             = (Inr cs, map fetch_order (cube_samples 6 (x_size two_by_two_cube) (x_size two_by_two_cube)))"
    "length cs = 9" by blast
  then show ?thesis using h len by (simp add: x)
qed


section \<open>Properties of the split-sum integral\<close>

text \<open>
  Around the normal \<open>(0, 0, 1)\<close> of \<open>integrate_brdf\<close> the tangent frame is
  \<open>(0, -1, 0)\<close>, \<open>(1, 0, 0)\<close>; the half-vector has a positive third component, and the
  third component of a normalised vector is at most 1. With these no division of the
  loop body meets a zero divisor.
\<close>

lemma lv3_normalized_z_le_one: "vz (lv3_normalized a) \<le> 1"
proof (cases "lv3_dot a a = 0")
  case True
  then show ?thesis by (simp add: lv3_normalized_def vz_def)
next
  case False
  have sq: "0 \<le> vx a * vx a" "0 \<le> vy a * vy a" "0 \<le> vz a * vz a" by simp_all
  then have nn: "0 \<le> lv3_dot a a" and le: "vz a * vz a \<le> lv3_dot a a"
    unfolding lv3_dot_def by linarith+
  with False have pos: "0 < lv3_dot a a" by simp
  have "vz a \<le> \<bar>vz a\<bar>" by simp
  also have "\<bar>vz a\<bar> = sqrt (vz a * vz a)" by simp
  also have "\<dots> \<le> sqrt (lv3_dot a a)" by (rule real_sqrt_le_mono [OF le])
  finally have "vz a / sqrt (lv3_dot a a) \<le> 1"
    using pos by (simp add: divide_le_eq)
  with False show ?thesis by (simp add: lv3_normalized_def vz_def Let_def)
qed

lemma lv3_normalized_z_pos: "0 < vz a \<Longrightarrow> 0 < vz (lv3_normalized a)"
proof -
  assume z: "0 < vz a"
  have sq: "0 \<le> vx a * vx a" "0 \<le> vy a * vy a" "0 < vz a * vz a" using z by simp_all
  then have pos: "0 < lv3_dot a a" unfolding lv3_dot_def by linarith
  then show ?thesis using z by (simp add: lv3_normalized_def vz_def Let_def)
qed

lemma frame_of_plus_z:
  "tangent_for (0, 0, 1) = (0, - 1, 0)" "bitangent_for (0, 0, 1) = (1, 0, 0)"
proof -
  have u: "upvec_for (0, 0, 1) = (1, 0, 0)" by (simp add: upvec_for_def vz_def)
  show t: "tangent_for (0, 0, 1) = (0, - 1, 0)"
    by (simp add: tangent_for_def u lv3_cross_def lv3_normalized_def lv3_dot_def vx_def vy_def vz_def)
  show "bitangent_for (0, 0, 1) = (1, 0, 0)"
    by (simp add: bitangent_for_def t lv3_cross_def vx_def vy_def vz_def)
qed

lemma importance_sample_ggx_plus_z:
  assumes "0 \<le> snd xi" "snd xi < 1"
  shows "\<exists>h. importance_sample_ggx xi (0, 0, 1) roughness = Inr h \<and> 0 < vz h"
proof -
  define c where "c = ggx_costheta roughness (snd xi)"
  define s where "s = sqrt (1 - c * c)"
  define a :: LVector3 where "a = (sin (2 * pi * fst xi) * s, - (cos (2 * pi * fst xi) * s), c)"
  have cpos: "0 < c" using ggx_costheta_bounds(1) [OF assms] by (simp add: c_def)
  have "importance_sample_ggx xi (0, 0, 1) roughness = Inr (lv3_normalized a)"
    by (simp add: importance_sample_ggx_eq [OF assms] Let_def frame_of_plus_z
        lv3_add_def lv3_scale_def vx_def vy_def vz_def a_def s_def c_def)
  moreover have "0 < vz (lv3_normalized a)"
    by (rule lv3_normalized_z_pos) (simp add: a_def vz_def cpos)
  ultimately show ?thesis by blast
qed

lemma geometry_schlick_ggx_returns:
  assumes "0 < x" "x \<le> 1"
  shows "\<exists>g. geometry_schlick_ggx x roughness = Inr g"
proof -
  define k where "k = roughness * roughness / 2"
  have k: "0 \<le> k" by (simp add: k_def)
  have "x * (1 - k) + k = x + k * (1 - x)"
    by (simp add: algebra_simps)
  moreover have "0 \<le> k * (1 - x)"
    using k assms(2) by (intro mult_nonneg_nonneg) simp_all
  ultimately have "x * (1 - k) + k \<noteq> 0"
    using assms(1) by linarith
  then show ?thesis by (simp add: geometry_schlick_ggx_def Let_def truediv_def k_def)
qed

lemma geometry_smith_returns:
  assumes "0 < lv3_dot normal view" "lv3_dot normal view \<le> 1"
    "0 < lv3_dot normal light" "lv3_dot normal light \<le> 1"
  shows "\<exists>g. geometry_smith normal view light roughness = Inr g"
proof -
  from geometry_schlick_ggx_returns [OF assms(1,2)] obtain gv
    where gv: "geometry_schlick_ggx (lv3_dot normal view) roughness = Inr gv" by blast
  from geometry_schlick_ggx_returns [OF assms(3,4)] obtain gl
    where gl: "geometry_schlick_ggx (lv3_dot normal light) roughness = Inr gl" by blast
  have m: "max (lv3_dot normal view) 0 = lv3_dot normal view"
    "max (lv3_dot normal light) 0 = lv3_dot normal light"
    using assms(1,3) by simp_all
  show ?thesis by (simp add: geometry_smith_def Let_def m gv gl bindE_def)
qed

text \<open>
  One pass of the loop body, for a view vector \<open>(a, 0, nv)\<close> with \<open>0 < nv \<le> 1\<close>: it
  returns, adding a pair to the accumulators that does not depend on them and that is
  zero when \<open>ndotl\<close> is not positive.
\<close>

lemma integrate_brdf_body_returns:
  assumes "0 \<le> idx" "idx < n" "0 < nv" "nv \<le> 1"
  shows "\<exists>l p q. integrate_brdf_ndotl (a, 0, nv) (0, 0, 1) r n idx = Some (Inr l)
           \<and> (\<forall>acc. integrate_brdf_body nv (a, 0, nv) (0, 0, 1) r n acc idx
                        = Some (Inr (fst acc + p, snd acc + q)))
           \<and> (l \<le> 0 \<longrightarrow> p = 0 \<and> q = 0)"
proof -
  define view :: LVector3 where "view = (a, 0, nv)"
  define normal :: LVector3 where "normal = (0, 0, 1)"
  from hammersley_in_loop [OF assms(1,2)] obtain v
    where v: "0 \<le> v" "v < 1"
      "hammersley idx n = Some (Inr (real_of_int idx / real_of_int n, v))" by blast
  from importance_sample_ggx_plus_z [of "(real_of_int idx / real_of_int n, v)" r] v(1,2)
  obtain h where h: "importance_sample_ggx (real_of_int idx / real_of_int n, v) normal r = Inr h"
    and hz: "0 < vz h" by (auto simp: normal_def)
  define light where "light = lv3_normalized
      (lv3_sub (lv3_scale (lv3_scale h 2) (lv3_dot view h)) view)"
  define ndotl where "ndotl = max (vz light) 0"
  have l: "integrate_brdf_ndotl view normal r n idx = Some (Inr ndotl)"
    by (simp add: integrate_brdf_ndotl_def v(3) h bindP_def Let_def light_def ndotl_def)
  have nl: "lv3_dot normal light = vz light" and nvw: "lv3_dot normal view = nv"
    by (simp_all add: lv3_dot_def normal_def view_def vx_def vy_def vz_def)
  show ?thesis
  proof (cases "0 < ndotl")
    case False
    have "integrate_brdf_body nv view normal r n acc idx = Some (Inr (fst acc + 0, snd acc + 0))" for acc
      using False
      by (simp add: integrate_brdf_body_def v(3) h bindP_def Let_def light_def [symmetric]
          ndotl_def [symmetric])
    with l show ?thesis unfolding view_def normal_def by blast
  next
    case True
    then have lz: "0 < vz light" by (simp add: ndotl_def max_def split: if_splits)
    have lz1: "vz light \<le> 1" unfolding light_def by (rule lv3_normalized_z_le_one)
    from geometry_smith_returns [of normal view light r] lz lz1 assms(3,4)
    obtain geom where geom: "geometry_smith normal view light r = Inr geom"
      by (auto simp: nl nvw)
    have d: "max (vz h) 0 * nv \<noteq> 0" using hz assms(3) by simp
    define vdoth where "vdoth = max (lv3_dot view h) 0"
    define gv where "gv = geom * vdoth / (max (vz h) 0 * nv)"
    have "integrate_brdf_body nv view normal r n acc idx
            = Some (Inr (fst acc + (1 - (1 - vdoth) ^ 5) * gv, snd acc + (1 - vdoth) ^ 5 * gv))" for acc
      using True d
      by (simp add: integrate_brdf_body_def v(3) h bindP_def Let_def light_def [symmetric]
          ndotl_def [symmetric] geom truediv_def vdoth_def gv_def)
    with l True show ?thesis unfolding view_def normal_def by force
  qed
qed

lemma integrate_brdf_body_term:
  assumes "0 \<le> idx" "idx < n" "0 < nv" "nv \<le> 1"
  shows "\<exists>l. integrate_brdf_ndotl (a, 0, nv) (0, 0, 1) r n idx = Some (Inr l)
           \<and> (\<forall>acc. integrate_brdf_body nv (a, 0, nv) (0, 0, 1) r n acc idx
                 = Some (Inr (fst acc + fst (integrate_brdf_term nv (a, 0, nv) (0, 0, 1) r n idx),
                              snd acc + snd (integrate_brdf_term nv (a, 0, nv) (0, 0, 1) r n idx))))
           \<and> (l \<le> 0 \<longrightarrow> integrate_brdf_term nv (a, 0, nv) (0, 0, 1) r n idx = (0, 0))"
proof -
  from integrate_brdf_body_returns [OF assms, of a r] obtain l p q
    where l: "integrate_brdf_ndotl (a, 0, nv) (0, 0, 1) r n idx = Some (Inr l)"
      and b: "\<And>acc. integrate_brdf_body nv (a, 0, nv) (0, 0, 1) r n acc idx
                        = Some (Inr (fst acc + p, snd acc + q))"
      and z: "l \<le> 0 \<longrightarrow> p = 0 \<and> q = 0"
    by blast
  have t: "integrate_brdf_term nv (a, 0, nv) (0, 0, 1) r n idx = (p, q)"
    by (simp add: integrate_brdf_term_def b)
  show ?thesis using l b z by (simp add: t)
qed

lemma for_loop_sum:
  assumes "\<And>i acc. i \<in> set xs \<Longrightarrow>
             body acc i = Some (Inr (fst acc + fst (c i), snd acc + snd (c i)))"
  shows "for_loop body xs acc
           = Some (Inr (fst acc + sum_list (map (\<lambda>i. fst (c i)) xs),
                        snd acc + sum_list (map (\<lambda>i. snd (c i)) xs)))"
  using assms
proof (induction xs arbitrary: acc)
  case Nil
  then show ?case by simp
next
  case (Cons i xs)
  have b: "body acc i = Some (Inr (fst acc + fst (c i), snd acc + snd (c i)))"
    by (rule Cons.prems) simp
  have "for_loop body xs (fst acc + fst (c i), snd acc + snd (c i))
          = Some (Inr (fst (fst acc + fst (c i), snd acc + snd (c i)) + sum_list (map (\<lambda>i. fst (c i)) xs),
                       snd (fst acc + fst (c i), snd acc + snd (c i)) + sum_list (map (\<lambda>i. snd (c i)) xs)))"
    by (rule Cons.IH) (simp add: Cons.prems)
  then show ?case by (simp add: b bindP_def add.assoc)
qed

lemma integrate_brdf_eq:
  assumes "ndotv \<le> 1"
  shows "integrate_brdf ndotv r n
           = Some (Inr (lv2_div
               (sum_list (map (\<lambda>idx. fst (integrate_brdf_term (max ndotv 0.0001)
                    (sqrt (1 - max ndotv 0.0001 * max ndotv 0.0001), 0, max ndotv 0.0001) (0, 0, 1) r n idx))
                  (range_list n)),
                sum_list (map (\<lambda>idx. snd (integrate_brdf_term (max ndotv 0.0001)
                    (sqrt (1 - max ndotv 0.0001 * max ndotv 0.0001), 0, max ndotv 0.0001) (0, 0, 1) r n idx))
                  (range_list n)))
               (real_of_int n)))"
proof -
  define nv where "nv = max ndotv 0.0001"
  have nv: "0 < nv" "nv \<le> 1" using assms by (simp_all add: nv_def)
  then have "nv * nv \<le> 1" by (simp add: mult_le_one)
  then have s: "\<not> 1 - nv * nv < 0" by simp
  define view :: LVector3 where "view = (sqrt (1 - nv * nv), 0, nv)"
  have body: "integrate_brdf_body nv view (0, 0, 1) r n acc i
      = Some (Inr (fst acc + fst (integrate_brdf_term nv view (0, 0, 1) r n i),
                   snd acc + snd (integrate_brdf_term nv view (0, 0, 1) r n i)))"
    if "i \<in> set (range_list n)" for i acc
  proof -
    from that have i: "0 \<le> i" "i < n" by (auto simp: range_list_mem)
    from integrate_brdf_body_term [OF i nv, of "sqrt (1 - nv * nv)" r]
    show ?thesis unfolding view_def by blast
  qed
  have loop: "for_loop (integrate_brdf_body nv view (0, 0, 1) r n) (range_list n) (0, 0)
      = Some (Inr (fst (0::real, 0::real) + sum_list (map (\<lambda>i. fst (integrate_brdf_term nv view (0, 0, 1) r n i)) (range_list n)),
                   snd (0::real, 0::real) + sum_list (map (\<lambda>i. snd (integrate_brdf_term nv view (0, 0, 1) r n i)) (range_list n))))"
    by (rule for_loop_sum) (rule body)
  have "integrate_brdf ndotv r n
      = Some (Inr (lv2_div
          (sum_list (map (\<lambda>i. fst (integrate_brdf_term nv view (0, 0, 1) r n i)) (range_list n)),
           sum_list (map (\<lambda>i. snd (integrate_brdf_term nv view (0, 0, 1) r n i)) (range_list n)))
          (real_of_int n)))"
    unfolding integrate_brdf_def Let_def nv_def [symmetric]
    using s loop by (simp add: math_sqrt_def bindP_def view_def)
  then show ?thesis unfolding view_def nv_def .
qed

lemma integrate_brdf_above_one:
  "1 < ndotv \<Longrightarrow> integrate_brdf ndotv roughness num_samples = Some (Inl ValueError)"
proof -
  assume a: "1 < ndotv"
  have m: "max ndotv 0.0001 = ndotv" using a by simp
  have "1 * 1 < ndotv * ndotv" using a by (intro mult_strict_mono) simp_all
  then have neg: "1 - ndotv * ndotv < 0" by simp
  show ?thesis
    unfolding integrate_brdf_def Let_def m using neg by (simp add: math_sqrt_def bindP_def)
qed












section \<open>Properties of the lookup table\<close>

text \<open>
  A loop whose body always returns is a fold, and the nested loop over rows and columns
  is the fold over the pairs. A fold of writes of two floats at distinct offsets, all
  multiples of 8, leaves at each offset what was written there.
\<close>

lemma for_loop_fold:
  assumes "\<And>i s. i \<in> set xs \<Longrightarrow> body s i = Some (Inr (g i s))"
  shows "for_loop body xs s = Some (Inr (fold g xs s))"
  using assms
proof (induction xs arbitrary: s)
  case Nil
  then show ?case by simp
next
  case (Cons i xs)
  have "body s i = Some (Inr (g i s))" by (rule Cons.prems) simp
  moreover have "for_loop body xs (g i s) = Some (Inr (fold g xs (g i s)))"
    by (rule Cons.IH) (simp add: Cons.prems)
  ultimately show ?case by (simp add: bindP_def)
qed

lemma fold_product:
  "fold (\<lambda>y h. fold (w y) xs h) ys h = fold (\<lambda>p. w (fst p) (snd p)) (List.product ys xs) h"
proof (induction ys arbitrary: h)
  case Nil
  then show ?case by simp
next
  case (Cons y ys)
  have "fold (\<lambda>p. w (fst p) (snd p)) (map (Pair y) xs) h = fold (w y) xs h"
    by (simp add: fold_map comp_def)
  then show ?case using Cons.IH by simp
qed

lemma pack_into_ff_read:
  "pack_into_ff h off a b k
     = (if k = off + 4 then Some b else if k = off then Some a else h k)"
  by (simp add: pack_into_ff_def)

lemma fold_pack_untouched:
  fixes off :: "'i \<Rightarrow> int"
  assumes w: "\<And>i h k. w i h k
                = (if k = off i + 4 then Some (b i) else if k = off i then Some (a i) else h k)"
    and "\<forall>i \<in> set is. k \<noteq> off i \<and> k \<noteq> off i + 4"
  shows "fold w is h k = h k"
  using assms(2)
proof (induction "is" arbitrary: h rule: rev_induct)
  case Nil
  then show ?case by simp
next
  case (snoc j js)
  have "fold w (js @ [j]) h k = w j (fold w js h) k" by simp
  also have "\<dots> = fold w js h k" using snoc.prems by (subst w) simp
  also have "\<dots> = h k" using snoc.prems by (intro snoc.IH) simp
  finally show ?case .
qed

lemma fold_pack_written:
  fixes off :: "'i \<Rightarrow> int"
  assumes w: "\<And>i h k. w i h k
                = (if k = off i + 4 then Some (b i) else if k = off i then Some (a i) else h k)"
    and "i \<in> set is"
    and "\<forall>j \<in> set is. off j = off i \<longrightarrow> j = i"
    and "\<forall>j \<in> set is. off j + 4 \<noteq> off i \<and> off j \<noteq> off i + 4"
  shows "fold w is h (off i) = Some (a i) \<and> fold w is h (off i + 4) = Some (b i)"
  using assms(2-4)
proof (induction "is" arbitrary: h rule: rev_induct)
  case Nil
  then show ?case by simp
next
  case (snoc j js)
  have step: "fold w (js @ [x]) h k = w x (fold w js h) k" for k x by simp
  show ?case
  proof (cases "j = i")
    case True
    have "w i (fold w js h) (off i) = Some (a i)" by (subst w) simp
    moreover have "w i (fold w js h) (off i + 4) = Some (b i)" by (subst w) simp
    ultimately show ?thesis using True by (simp only: step)
  next
    case False
    with snoc.prems have i: "i \<in> set js" by simp
    have d: "off j \<noteq> off i" "off j + 4 \<noteq> off i" "off j \<noteq> off i + 4"
      using snoc.prems False by auto
    have ih: "fold w js h (off i) = Some (a i) \<and> fold w js h (off i + 4) = Some (b i)"
      using snoc.prems i by (intro snoc.IH) auto
    have "w j (fold w js h) (off i) = fold w js h (off i)"
      using d by (subst w) auto
    moreover have "w j (fold w js h) (off i + 4) = fold w js h (off i + 4)"
      using d by (subst w) auto
    ultimately show ?thesis unfolding step using ih by simp
  qed
qed

lemma texel_offset_inj:
  fixes L :: int
  assumes "0 \<le> x" "x < L" "0 \<le> x'" "x' < L" "(y' * L + x') * 8 = (y * L + x) * 8"
  shows "y' = y \<and> x' = x"
proof -
  have nz: "L \<noteq> 0" using assms(1,2) by simp
  have e: "y' * L + x' = y * L + x" using assms(5) by simp
  have "(y' * L + x') div L = y'" "(y * L + x) div L = y"
    using assms(1-4) nz by simp_all
  with e have "y' = y" by simp
  with e show ?thesis by simp
qed

lemma integrate_brdf_returns:
  "ndotv \<le> 1 \<Longrightarrow> \<exists>res. integrate_brdf ndotv r n = Some (Inr res)"
  using integrate_brdf_eq by blast


text \<open>
  Claim C7. For \<open>lutsize > 0\<close> and every \<open>num_samples\<close> the table is built, and for every
  texel \<open>(x, y)\<close> the call \<open>integrate_brdf (x / lutsize) (y / lutsize) num_samples\<close>
  returns; the float at the texel's byte offset \<open>(y * lutsize + x) * 8\<close> is the second
  component of its result, which accumulates the bias, and the float 4 bytes further is
  the first component, which accumulates the scale.
\<close>

theorem gen_brdf_lut_texels:
  assumes "0 < lutsize"
  shows "\<exists>handle. gen_brdf_lut lutsize num_samples = Some (Inr handle)
           \<and> (\<forall>ycoord \<in> set (range_list lutsize). \<forall>xcoord \<in> set (range_list lutsize).
                 \<exists>result. integrate_brdf (real_of_int xcoord / real_of_int lutsize)
                              (real_of_int ycoord / real_of_int lutsize) num_samples
                            = Some (Inr result)
                   \<and> handle ((ycoord * lutsize + xcoord) * 8) = Some (lv2_y result)
                   \<and> handle ((ycoord * lutsize + xcoord) * 8 + 4) = Some (lv2_x result))"
proof -
  define xs where "xs = range_list lutsize"
  define res where "res = (\<lambda>p :: int \<times> int.
      case integrate_brdf (real_of_int (snd p) / real_of_int lutsize)
             (real_of_int (fst p) / real_of_int lutsize) num_samples of
        Some (Inr r) \<Rightarrow> r | _ \<Rightarrow> NonFinite)"
  define off where "off = (\<lambda>p :: int \<times> int. (fst p * lutsize + snd p) * 8)"
  define w where "w = (\<lambda>y x h. pack_into_ff h (off (y, x)) (lv2_y (res (y, x))) (lv2_x (res (y, x))))"
  have ib: "integrate_brdf (real_of_int x / real_of_int lutsize)
              (real_of_int y / real_of_int lutsize) num_samples = Some (Inr (res (y, x)))"
    if "x \<in> set xs" for x y
  proof -
    from that have "0 \<le> x" "x < lutsize" by (simp_all add: xs_def range_list_mem)
    then have "real_of_int x / real_of_int lutsize \<le> 1" by (simp add: divide_le_eq)
    from integrate_brdf_returns [OF this] obtain r
      where "integrate_brdf (real_of_int x / real_of_int lutsize)
              (real_of_int y / real_of_int lutsize) num_samples = Some (Inr r)" by blast
    then show ?thesis by (simp add: res_def)
  qed
  have quot: "int_truediv x lutsize = Inr (real_of_int x / real_of_int lutsize)"
    if "x \<in> set xs" for x
  proof (rule int_truediv_in_range)
    from that have "0 \<le> x" "x < lutsize" by (simp_all add: xs_def range_list_mem)
    then show "lutsize \<noteq> 0" and "\<bar>real_of_int x / real_of_int lutsize\<bar> \<le> 1"
      by simp_all
  qed
  have texel: "gen_brdf_lut_texel lutsize num_samples lutsize 8 y h x = Some (Inr (w y x h))"
    if "y \<in> set xs" and "x \<in> set xs" for x y h
    by (simp add: gen_brdf_lut_texel_def Let_def quot [OF that(1)] quot [OF that(2)] bindP_def
        ib [OF that(2)] w_def off_def)
  have inner: "for_loop (gen_brdf_lut_texel lutsize num_samples lutsize 8 y) xs h
                 = Some (Inr (fold (w y) xs h))" if "y \<in> set xs" for y h
    by (rule for_loop_fold) (rule texel [OF that])
  have outer: "for_loop (\<lambda>handle ycoord.
                   for_loop (gen_brdf_lut_texel lutsize num_samples lutsize 8 ycoord) xs handle)
                 xs Map.empty
               = Some (Inr (fold (\<lambda>y h. fold (w y) xs h) xs Map.empty))"
    by (rule for_loop_fold) (rule inner)
  define handle where "handle = fold (\<lambda>p. w (fst p) (snd p)) (List.product xs xs) Map.empty"
  have run: "gen_brdf_lut lutsize num_samples = Some (Inr handle)"
    unfolding gen_brdf_lut_def Let_def handle_def fold_product [symmetric]
    using outer by (simp add: component_width_def num_components_def xs_def)
  have wr: "w (fst p) (snd p) h k
              = (if k = off p + 4 then Some (lv2_x (res p))
                 else if k = off p then Some (lv2_y (res p)) else h k)" for p h k
    by (simp add: w_def pack_into_ff_read)
  have rd: "handle (off (y, x)) = Some (lv2_y (res (y, x)))
          \<and> handle (off (y, x) + 4) = Some (lv2_x (res (y, x)))"
    if x: "x \<in> set xs" and y: "y \<in> set xs" for x y
    unfolding handle_def
  proof (rule fold_pack_written [where a = "\<lambda>p. lv2_y (res p)" and b = "\<lambda>p. lv2_x (res p)"])
    show "w (fst p) (snd p) h k
              = (if k = off p + 4 then Some (lv2_x (res p))
                 else if k = off p then Some (lv2_y (res p)) else h k)" for p h k
      by (rule wr)
    show "(y, x) \<in> set (List.product xs xs)" using x y by simp
    show "\<forall>j \<in> set (List.product xs xs). off j = off (y, x) \<longrightarrow> j = (y, x)"
    proof (intro ballI impI)
      fix j assume j: "j \<in> set (List.product xs xs)" and e: "off j = off (y, x)"
      from j have "0 \<le> snd j" "snd j < lutsize" by (auto simp: xs_def range_list_mem)
      moreover from x have "0 \<le> x" "x < lutsize" by (simp_all add: xs_def range_list_mem)
      ultimately have "fst j = y \<and> snd j = x"
        using e by (intro texel_offset_inj [of x lutsize]) (simp_all add: off_def)
      then show "j = (y, x)" by (cases j) simp
    qed
    show "\<forall>j \<in> set (List.product xs xs). off j + 4 \<noteq> off (y, x) \<and> off j \<noteq> off (y, x) + 4"
      unfolding off_def by (intro ballI) presburger
  qed
  show ?thesis
  proof (intro exI [of _ handle] conjI ballI)
    show "gen_brdf_lut lutsize num_samples = Some (Inr handle)" by (rule run)
  next
    fix ycoord xcoord
    assume "ycoord \<in> set (range_list lutsize)" "xcoord \<in> set (range_list lutsize)"
    then have m: "xcoord \<in> set xs" "ycoord \<in> set xs" by (simp_all add: xs_def)
    show "\<exists>result. integrate_brdf (real_of_int xcoord / real_of_int lutsize)
                              (real_of_int ycoord / real_of_int lutsize) num_samples
                            = Some (Inr result)
                   \<and> handle ((ycoord * lutsize + xcoord) * 8) = Some (lv2_y result)
                   \<and> handle ((ycoord * lutsize + xcoord) * 8 + 4) = Some (lv2_x result)"
      using ib [OF m(1), of ycoord] rd [OF m] by (intro exI [of _ "res (ycoord, xcoord)"]) (simp add: off_def)
  qed
qed

theorem gen_brdf_lut_texels_witness:
  "(0::int) < 2
   \<and> (\<exists>handle result. gen_brdf_lut 2 1 = Some (Inr handle)
         \<and> integrate_brdf (1 / 2) (1 / 2) 1 = Some (Inr result)
         \<and> handle 24 = Some (lv2_y result) \<and> handle 28 = Some (lv2_x result))"
proof -
  have m: "(1::int) \<in> set (range_list 2)" by (simp add: range_list_mem)
  from gen_brdf_lut_texels [of 2 1] obtain handle
    where h: "gen_brdf_lut 2 1 = Some (Inr handle)"
      and t: "\<forall>ycoord \<in> set (range_list 2). \<forall>xcoord \<in> set (range_list 2).
                 \<exists>result. integrate_brdf (real_of_int xcoord / real_of_int 2)
                              (real_of_int ycoord / real_of_int 2) 1 = Some (Inr result)
                   \<and> handle ((ycoord * 2 + xcoord) * 8) = Some (lv2_y result)
                   \<and> handle ((ycoord * 2 + xcoord) * 8 + 4) = Some (lv2_x result)"
    by auto
  from t m obtain result
    where "integrate_brdf (real_of_int 1 / real_of_int 2) (real_of_int 1 / real_of_int 2) 1
             = Some (Inr result)"
      "handle ((1 * 2 + 1) * 8) = Some (lv2_y result)"
      "handle ((1 * 2 + 1) * 8 + 4) = Some (lv2_x result)"
    by blast
  with h show ?thesis by auto
qed

end
